theory Spec2Isabelle
  imports Main "HOL-Library.Word"
begin

section \<open>Schema validator (domain/schema_validator.go)\<close>

text \<open>
  Go's \<open>int64\<close> schema versions and table IDs are only compared and copied by the
  validator, never computed with, so they are modelled as \<open>int\<close>.  A \<open>time.Duration\<close>
  is a signed 64-bit count of nanoseconds whose arithmetic wraps: it is a \<open>64 word\<close>.
  A \<open>time.Time\<close> is modelled as the number of nanoseconds since the Unix epoch.
\<close>

type_synonym duration = "64 word"
type_synonym time = int

definition Millisecond :: duration where
  "Millisecond = 1000000"

definition Second :: duration where
  "Second = 1000000000"

text \<open>The zero \<open>time.Time\<close> (January 1, year 1, 00:00 UTC) of a fresh validator.\<close>

definition zeroTime :: time where
  "zeroTime = - 62135596800000000000"

text \<open>\<open>Time.Add\<close> and \<open>Time.After\<close>.\<close>

definition timeAdd :: "time \<Rightarrow> duration \<Rightarrow> time" where
  "timeAdd t d = t + sint d"

definition timeAfter :: "time \<Rightarrow> time \<Rightarrow> bool" where
  "timeAfter t u = (u < t)"

datatype checkResult = ResultSucc | ResultFail | ResultUnknown

record deltaSchemaInfo =
  schemaVersion :: int
  relatedTableIDs :: "int list"

record schemaValidator =
  isStarted :: bool
  lease :: duration
  latestSchemaVer :: int
  latestSchemaExpire :: time
  deltaSchemaInfos :: "deltaSchemaInfo list"

text \<open>
  Two things the validator uses are declared outside the file: the capacity
  \<open>maxNumberOfDiffsToLoad\<close> of the delta queue and \<open>oracle.GetTimeFromTS\<close>, which
  turns a timestamp into its wall-clock time.  Both are parameters of the model
  (\<open>cap\<close> and \<open>getTimeFromTS\<close>).
\<close>

definition NewSchemaValidator :: "duration \<Rightarrow> schemaValidator" where
  "NewSchemaValidator l =
     \<lparr>isStarted = True, lease = l, latestSchemaVer = 0,
      latestSchemaExpire = zeroTime, deltaSchemaInfos = []\<rparr>"

definition IsStarted :: "schemaValidator \<Rightarrow> bool" where
  "IsStarted s = isStarted s"

definition Stop :: "schemaValidator \<Rightarrow> schemaValidator" where
  "Stop s = s\<lparr>isStarted := False, latestSchemaVer := 0, deltaSchemaInfos := []\<rparr>"

definition Restart :: "schemaValidator \<Rightarrow> schemaValidator" where
  "Restart s = s\<lparr>isStarted := True\<rparr>"

definition Reset :: "schemaValidator \<Rightarrow> schemaValidator" where
  "Reset s = s\<lparr>isStarted := True, latestSchemaVer := 0, deltaSchemaInfos := []\<rparr>"

text \<open>\<open>enqueue\<close>: append, then drop the first element when the length exceeds the capacity.\<close>

definition enqueue :: "nat \<Rightarrow> schemaValidator \<Rightarrow> int \<Rightarrow> int list \<Rightarrow> schemaValidator" where
  "enqueue cap s ver ids =
     (let q = deltaSchemaInfos s @ [\<lparr>schemaVersion = ver, relatedTableIDs = ids\<rparr>]
      in if length q > cap then s\<lparr>deltaSchemaInfos := drop 1 q\<rparr>
         else s\<lparr>deltaSchemaInfos := q\<rparr>)"

definition Update ::
  "(64 word \<Rightarrow> time) \<Rightarrow> nat \<Rightarrow> schemaValidator \<Rightarrow> 64 word \<Rightarrow> int \<Rightarrow> int \<Rightarrow> int list
     \<Rightarrow> schemaValidator" where
  "Update getTimeFromTS cap s leaseGrantTS oldVer currVer changedTableIDs =
     (if \<not> isStarted s then s
      else
        let leaseGrantTime = getTimeFromTS leaseGrantTS;
            leaseExpire = timeAdd leaseGrantTime (lease s - Millisecond);
            s1 = s\<lparr>latestSchemaVer := currVer, latestSchemaExpire := leaseExpire\<rparr>
        in if currVer \<noteq> oldVer then enqueue cap s1 currVer changedTableIDs else s1)"

text \<open>The inner loop of \<open>hasRelatedTableID\<close>: is \<open>tblID\<close> one of \<open>relatedTableIDs\<close>?\<close>

fun hasTableID :: "int list \<Rightarrow> int \<Rightarrow> bool" where
  "hasTableID [] tblID = False"
| "hasTableID (relatedTblID # rest) tblID =
     (if tblID = relatedTblID then True else hasTableID rest tblID)"

fun hasRelatedTableID :: "int list \<Rightarrow> int list \<Rightarrow> bool" where
  "hasRelatedTableID relatedIDs [] = False"
| "hasRelatedTableID relatedIDs (tblID # rest) =
     (if hasTableID relatedIDs tblID then True else hasRelatedTableID relatedIDs rest)"

text \<open>
  The loop of \<open>findNewerDeltas\<close>, \<open>for i := len(q) - 1; i >= 0 && q[i].schemaVersion > currVer; i--\<close>.
  The counter of the model is \<open>i + 1\<close>, so that \<open>0\<close> stands for \<open>i = -1\<close>.
\<close>

fun findNewerPos :: "deltaSchemaInfo list \<Rightarrow> int \<Rightarrow> nat \<Rightarrow> nat \<Rightarrow> nat" where
  "findNewerPos q currVer 0 pos = pos"
| "findNewerPos q currVer (Suc i) pos =
     (if schemaVersion (q ! i) > currVer then findNewerPos q currVer i i else pos)"

definition findNewerDeltas :: "schemaValidator \<Rightarrow> int \<Rightarrow> deltaSchemaInfo list" where
  "findNewerDeltas s currVer =
     (let q = deltaSchemaInfos s
      in drop (findNewerPos q currVer (length q) (length q)) q)"

text \<open>The final loop of \<open>isRelatedTablesChanged\<close> over the newer deltas.\<close>

fun anyRelated :: "deltaSchemaInfo list \<Rightarrow> int list \<Rightarrow> bool" where
  "anyRelated [] tableIDs = False"
| "anyRelated (item # rest) tableIDs =
     (if hasRelatedTableID (relatedTableIDs item) tableIDs then True
      else anyRelated rest tableIDs)"

definition isRelatedTablesChanged :: "schemaValidator \<Rightarrow> int \<Rightarrow> int list \<Rightarrow> bool" where
  "isRelatedTablesChanged s currVer tableIDs =
     (if length (deltaSchemaInfos s) = 0 then True
      else
        let newerDeltas = findNewerDeltas s currVer
        in if length newerDeltas = length (deltaSchemaInfos s) then True
           else anyRelated newerDeltas tableIDs)"

definition Check ::
  "(64 word \<Rightarrow> time) \<Rightarrow> schemaValidator \<Rightarrow> 64 word \<Rightarrow> int \<Rightarrow> int list \<Rightarrow> checkResult" where
  "Check getTimeFromTS s txnTS schemaVer relatedIDs =
     (if \<not> isStarted s then ResultUnknown
      else if lease s = 0 then ResultSucc
      else if schemaVer < latestSchemaVer s then
        (if length relatedIDs = 0 then ResultFail
         else if isRelatedTablesChanged s schemaVer relatedIDs then ResultFail
         else ResultSucc)
      else
        let t = getTimeFromTS txnTS
        in if timeAfter t (latestSchemaExpire s) then ResultUnknown else ResultSucc)"

subsection \<open>Definitions that state the properties\<close>

text \<open>
  The suffix of the delta queue the specification speaks of: the longest run of entries,
  taken from the newest end, that all have a version strictly greater than \<open>ver\<close>.
\<close>

definition newerSuffix :: "deltaSchemaInfo list \<Rightarrow> int \<Rightarrow> deltaSchemaInfo list" where
  "newerSuffix q ver = rev (takeWhile (\<lambda>d. ver < schemaVersion d) (rev q))"


text \<open>A sequence of \<open>Update\<close> calls, each given by its four arguments.\<close>

type_synonym updateCall = "64 word \<times> int \<times> int \<times> int list"

definition applyUpdate ::
  "(64 word \<Rightarrow> time) \<Rightarrow> nat \<Rightarrow> schemaValidator \<Rightarrow> updateCall \<Rightarrow> schemaValidator" where
  "applyUpdate g cap s c = (case c of (ts, old, cur, ids) \<Rightarrow> Update g cap s ts old cur ids)"

definition UpdateAll ::
  "(64 word \<Rightarrow> time) \<Rightarrow> nat \<Rightarrow> schemaValidator \<Rightarrow> updateCall list \<Rightarrow> schemaValidator" where
  "UpdateAll g cap s calls = foldl (applyUpdate g cap) s calls"

text \<open>The entries a sequence of calls appends: one for every call with \<open>currVer \<noteq> oldVer\<close>.\<close>

definition appendedDeltas :: "updateCall list \<Rightarrow> deltaSchemaInfo list" where
  "appendedDeltas calls =
     map (\<lambda>(ts, old, cur, ids). \<lparr>schemaVersion = cur, relatedTableIDs = ids\<rparr>)
       (filter (\<lambda>(ts, old, cur, ids). cur \<noteq> old) calls)"

definition lastN :: "nat \<Rightarrow> 'a list \<Rightarrow> 'a list" where
  "lastN n xs = drop (length xs - n) xs"

text \<open>Concrete validators: a lease of one second, and states reached through \<open>Update\<close>.\<close>

definition oneSecondValidator :: schemaValidator where
  "oneSecondValidator = NewSchemaValidator Second"


definition updatedValidator :: schemaValidator where
  "updatedValidator = Update (\<lambda>ts. 0) 100 oneSecondValidator 0 0 5 [1]"

subsection \<open>The loops of the validator as list functions\<close>







text \<open>
  Where the versions in the queue never decrease, as they do when every \<open>Update\<close> brings a
  newer version, the entries of the suffix are all the entries with a greater version.
\<close>

lemma newerSuffix_sorted:
  "sorted (map schemaVersion q) \<Longrightarrow>
   set (newerSuffix q v) = {d \<in> set q. v < schemaVersion d}"
proof (induction q rule: rev_induct)
  case Nil
  then show ?case by (simp add: newerSuffix_def)
next
  case (snoc x xs)
  then have srt: "sorted (map schemaVersion xs)"
    and le: "\<forall>d\<in>set xs. schemaVersion d \<le> schemaVersion x"
    by (simp_all add: sorted_append)
  show ?case
  proof (cases "v < schemaVersion x")
    case True
    then have "newerSuffix (xs @ [x]) v = newerSuffix xs v @ [x]"
      by (simp add: newerSuffix_def)
    with True snoc.IH [OF srt] show ?thesis by auto
  next
    case False
    then have "newerSuffix (xs @ [x]) v = []"
      by (simp add: newerSuffix_def)
    with False le show ?thesis by fastforce
  qed
qed


lemma updatedValidator_eq:
  "updatedValidator =
     \<lparr>isStarted = True, lease = Second, latestSchemaVer = 5, latestSchemaExpire = 999000000,
      deltaSchemaInfos = [\<lparr>schemaVersion = 5, relatedTableIDs = [1]\<rparr>]\<rparr>"
  by (simp add: updatedValidator_def oneSecondValidator_def Update_def enqueue_def
      NewSchemaValidator_def timeAdd_def Second_def Millisecond_def Let_def)

subsection \<open>The decision of Check\<close>




subsection \<open>Stop, Restart and Reset\<close>

text \<open>
  C3, as the claim states it, fails in its second half: \<open>Stop\<close> sets \<open>latestSchemaVer\<close> to 0
  and empties the delta queue, and \<open>Restart\<close> only sets \<open>isStarted\<close>.  After
  \<open>Update(0, 0, 5, [1])\<close> the version is 5 and \<open>Check(0, 3, [1])\<close> fails; after \<open>Stop\<close> and
  \<open>Restart\<close> the version is 0 and the same call succeeds.
\<close>

theorem Restart_forgets_version_counterexample:
  "latestSchemaVer updatedValidator = 5 \<and>
   latestSchemaVer (Restart (Stop updatedValidator)) = 0 \<and>
   Check (\<lambda>ts. 0) updatedValidator 0 3 [1] = ResultFail \<and>
   Check (\<lambda>ts. 0) (Restart (Stop updatedValidator)) 0 3 [1] = ResultSucc"
  by (simp add: updatedValidator_eq Check_def isRelatedTablesChanged_def findNewerDeltas_def
      Stop_def Restart_def timeAfter_def Second_def Let_def)

text \<open>
  C3, amended: after \<open>Stop()\<close> every \<open>Check\<close> call returns Unknown whatever its arguments;
  after a subsequent \<open>Restart()\<close> the validator is started with \<open>latestSchemaVer = 0\<close> and an
  empty delta queue (the version set by \<open>Update\<close> before the \<open>Stop\<close> is gone), its lease and
  \<open>latestSchemaExpire\<close> unchanged, so that \<open>Check\<close> returns Succ for a zero lease, else Fail
  for a negative \<open>schemaVer\<close>, else Succ or Unknown by the expiry deadline.
\<close>

theorem Stop_Restart_Check:
  "Check g (Stop s) txnTS schemaVer relatedIDs = ResultUnknown \<and>
   Restart (Stop s) = s\<lparr>isStarted := True, latestSchemaVer := 0, deltaSchemaInfos := []\<rparr> \<and>
   Check g (Restart (Stop s)) txnTS schemaVer relatedIDs =
     (if lease s = 0 then ResultSucc
      else if schemaVer < 0 then ResultFail
      else if timeAfter (g txnTS) (latestSchemaExpire s) then ResultUnknown
      else ResultSucc)"
proof -
  have a: "Check g (Stop s) txnTS schemaVer relatedIDs = ResultUnknown"
    by (simp add: Check_def Stop_def)
  have b: "Restart (Stop s) = s\<lparr>isStarted := True, latestSchemaVer := 0, deltaSchemaInfos := []\<rparr>"
    by (simp add: Restart_def Stop_def)
  have c: "Check g (s\<lparr>isStarted := True, latestSchemaVer := 0, deltaSchemaInfos := []\<rparr>)
             txnTS schemaVer relatedIDs =
     (if lease s = 0 then ResultSucc
      else if schemaVer < 0 then ResultFail
      else if timeAfter (g txnTS) (latestSchemaExpire s) then ResultUnknown
      else ResultSucc)"
    by (simp add: Check_def isRelatedTablesChanged_def Let_def)
  from a b c show ?thesis by simp
qed

theorem Stop_Restart_Check_witness:
  "Check (\<lambda>ts. 0) (Stop updatedValidator) 0 3 [1] = ResultUnknown \<and>
   Check (\<lambda>ts. 0) (Restart (Stop updatedValidator)) 0 (- 1) [1] = ResultFail \<and>
   Check (\<lambda>ts. 1000000000) (Restart (Stop updatedValidator)) 0 3 [1] = ResultUnknown"
  using Stop_Restart_Check [of "\<lambda>ts. 0" updatedValidator 0 3 "[1]"]
    Stop_Restart_Check [of "\<lambda>ts. 0" updatedValidator 0 "- 1" "[1]"]
    Stop_Restart_Check [of "\<lambda>ts. 1000000000" updatedValidator 0 3 "[1]"]
  by (simp add: updatedValidator_eq timeAfter_def Second_def)

text \<open>
  C10: neither \<open>Stop()\<close> nor \<open>Reset()\<close> modifies \<open>latestSchemaExpire\<close> (nor the lease); both
  set \<open>latestSchemaVer\<close> to 0 and empty the delta queue, \<open>Stop\<close> clears \<open>isStarted\<close> and \<open>Reset\<close>
  sets it.  So right after \<open>Reset()\<close> a \<open>Check\<close> with \<open>schemaVer \<ge> 0\<close> is decided (the
  lease not being zero) by the expiry deadline of the last \<open>Update\<close> before the \<open>Reset\<close>,
  and returns Succ when the transaction's time is not after it.
\<close>

theorem Stop_Reset_keep_expire:
  "latestSchemaExpire (Stop s) = latestSchemaExpire s \<and>
   latestSchemaExpire (Reset s) = latestSchemaExpire s \<and>
   lease (Stop s) = lease s \<and> lease (Reset s) = lease s \<and>
   \<not> isStarted (Stop s) \<and> isStarted (Reset s) \<and>
   latestSchemaVer (Stop s) = 0 \<and> latestSchemaVer (Reset s) = 0 \<and>
   deltaSchemaInfos (Stop s) = [] \<and> deltaSchemaInfos (Reset s) = [] \<and>
   (0 \<le> schemaVer \<longrightarrow>
      Check g (Reset s) txnTS schemaVer relatedIDs =
        (if lease s = 0 then ResultSucc
         else if timeAfter (g txnTS) (latestSchemaExpire s) then ResultUnknown
         else ResultSucc))"
  by (simp add: Stop_def Reset_def Check_def Let_def)

theorem Stop_Reset_keep_expire_witness:
  "(0::int) \<le> 7 \<and> lease updatedValidator \<noteq> 0 \<and>
   latestSchemaExpire (Reset updatedValidator) = 999000000 \<and>
   latestSchemaExpire (NewSchemaValidator Second) = zeroTime \<and>
   Check (\<lambda>ts. 0) (Reset updatedValidator) 0 7 [1] = ResultSucc"
proof -
  have h: "lease updatedValidator \<noteq> 0"
    by (simp add: updatedValidator_eq Second_def)
  have e: "latestSchemaExpire updatedValidator = 999000000"
    by (simp add: updatedValidator_eq)
  show ?thesis
    using Stop_Reset_keep_expire [of updatedValidator 7 "\<lambda>ts. 0" 0 "[1]"] h e
    by (simp add: timeAfter_def NewSchemaValidator_def)
qed

subsection \<open>The bounded delta queue\<close>

lemma lastN_lastN_append: "lastN n (lastN n xs @ ys) = lastN n (xs @ ys)"
proof -
  have r: "\<And>zs::'a list. lastN n zs = rev (take n (rev zs))"
    by (simp add: lastN_def rev_take)
  show ?thesis by (simp add: r min_def)
qed

lemma lastN_length: "length (lastN n xs) \<le> n"
  by (simp add: lastN_def)

lemma lastN_id: "length xs \<le> n \<Longrightarrow> lastN n xs = xs"
  by (simp add: lastN_def)

lemma enqueue_lastN:
  "length (deltaSchemaInfos s) \<le> cap \<Longrightarrow>
   deltaSchemaInfos (enqueue cap s v ids) =
     lastN cap (deltaSchemaInfos s @ [\<lparr>schemaVersion = v, relatedTableIDs = ids\<rparr>])"
proof (cases "length (deltaSchemaInfos s) = cap")
  case True
  then have "Suc (length (deltaSchemaInfos s)) - cap = 1" by simp
  with True show ?thesis by (simp add: enqueue_def lastN_def Let_def)
next
  case False
  assume "length (deltaSchemaInfos s) \<le> cap"
  with False have "length (deltaSchemaInfos s) < cap" by simp
  then show ?thesis by (simp add: enqueue_def lastN_def Let_def)
qed

lemma applyUpdate_started: "isStarted (applyUpdate g cap s c) = isStarted s"
  by (cases c) (simp add: applyUpdate_def Update_def enqueue_def Let_def)

lemma applyUpdate_deltas:
  "isStarted s \<Longrightarrow> length (deltaSchemaInfos s) \<le> cap \<Longrightarrow>
   deltaSchemaInfos (applyUpdate g cap s c) = lastN cap (deltaSchemaInfos s @ appendedDeltas [c])"
proof -
  assume st: "isStarted s" and le: "length (deltaSchemaInfos s) \<le> cap"
  obtain ts old cur ids where c: "c = (ts, old, cur, ids)" by (cases c) auto
  let ?s1 = "s\<lparr>latestSchemaVer := cur,
      latestSchemaExpire := timeAdd (g ts) (lease s - Millisecond)\<rparr>"
  have "length (deltaSchemaInfos ?s1) \<le> cap" using le by simp
  from enqueue_lastN [OF this, of cur ids] st le show ?thesis
    by (simp add: c applyUpdate_def Update_def appendedDeltas_def Let_def lastN_id)
qed

lemma UpdateAll_deltas:
  "isStarted s \<Longrightarrow> length (deltaSchemaInfos s) \<le> cap \<Longrightarrow>
   deltaSchemaInfos (UpdateAll g cap s calls) = lastN cap (deltaSchemaInfos s @ appendedDeltas calls)"
proof (induction calls arbitrary: s)
  case Nil
  then show ?case by (simp add: UpdateAll_def appendedDeltas_def lastN_id)
next
  case (Cons c calls)
  let ?s' = "applyUpdate g cap s c"
  have d: "deltaSchemaInfos ?s' = lastN cap (deltaSchemaInfos s @ appendedDeltas [c])"
    using Cons.prems by (rule applyUpdate_deltas)
  have st: "isStarted ?s'" using Cons.prems(1) by (simp add: applyUpdate_started)
  have le: "length (deltaSchemaInfos ?s') \<le> cap" by (simp add: d lastN_length)
  have a: "appendedDeltas (c # calls) = appendedDeltas [c] @ appendedDeltas calls"
    by (simp add: appendedDeltas_def)
  have "deltaSchemaInfos (UpdateAll g cap s (c # calls)) = deltaSchemaInfos (UpdateAll g cap ?s' calls)"
    by (simp add: UpdateAll_def)
  also have "\<dots> = lastN cap (deltaSchemaInfos ?s' @ appendedDeltas calls)"
    using st le by (rule Cons.IH)
  also have "\<dots> = lastN cap (deltaSchemaInfos s @ appendedDeltas (c # calls))"
    using lastN_lastN_append [of cap "deltaSchemaInfos s @ appendedDeltas [c]" "appendedDeltas calls"]
    by (simp add: d a)
  finally show ?case .
qed

lemma UpdateAll_stopped: "\<not> isStarted s \<Longrightarrow> UpdateAll g cap s calls = s"
  by (induction calls) (simp_all add: UpdateAll_def applyUpdate_def Update_def split: prod.splits)

text \<open>
  C9: for every sequence of \<open>Update\<close> calls on a validator whose delta queue holds no more
  than the capacity (a new validator's queue is empty), the queue still holds no more than
  the capacity afterwards, and (the validator being started) it is made of the last \<open>cap\<close>
  entries of the old queue followed by the appended entries, in order.  An \<open>Update\<close> that
  appends to a full queue evicts exactly the oldest entry.  A stopped validator ignores the
  calls.
\<close>

theorem Update_delta_queue_bounded:
  "length (deltaSchemaInfos s) \<le> cap \<Longrightarrow>
   length (deltaSchemaInfos (UpdateAll g cap s calls)) \<le> cap \<and>
   deltaSchemaInfos (UpdateAll g cap s calls) =
     (if isStarted s
      then drop (length (deltaSchemaInfos s @ appendedDeltas calls) - cap)
             (deltaSchemaInfos s @ appendedDeltas calls)
      else deltaSchemaInfos s) \<and>
   (isStarted s \<and> currVer \<noteq> oldVer \<and> length (deltaSchemaInfos s) = cap \<and> 0 < cap \<longrightarrow>
      deltaSchemaInfos (Update g cap s leaseGrantTS oldVer currVer changedTableIDs) =
        tl (deltaSchemaInfos s) @ [\<lparr>schemaVersion = currVer, relatedTableIDs = changedTableIDs\<rparr>])"
proof -
  assume le: "length (deltaSchemaInfos s) \<le> cap"
  have all: "length (deltaSchemaInfos (UpdateAll g cap s calls)) \<le> cap \<and>
     deltaSchemaInfos (UpdateAll g cap s calls) =
     (if isStarted s
      then drop (length (deltaSchemaInfos s @ appendedDeltas calls) - cap)
             (deltaSchemaInfos s @ appendedDeltas calls)
      else deltaSchemaInfos s)"
  proof (cases "isStarted s")
    case True
    with le have "deltaSchemaInfos (UpdateAll g cap s calls) =
        lastN cap (deltaSchemaInfos s @ appendedDeltas calls)"
      by (simp add: UpdateAll_deltas)
    with True show ?thesis
      using lastN_length [of cap "deltaSchemaInfos s @ appendedDeltas calls"]
      by (simp add: lastN_def)
  next
    case False
    with le show ?thesis by (simp add: UpdateAll_stopped)
  qed
  have one: "isStarted s \<and> currVer \<noteq> oldVer \<and> length (deltaSchemaInfos s) = cap \<and> 0 < cap \<longrightarrow>
      deltaSchemaInfos (Update g cap s leaseGrantTS oldVer currVer changedTableIDs) =
        tl (deltaSchemaInfos s) @ [\<lparr>schemaVersion = currVer, relatedTableIDs = changedTableIDs\<rparr>]"
    by (cases "deltaSchemaInfos s") (auto simp: Update_def enqueue_def Let_def)
  from all one show ?thesis by blast
qed

theorem Update_delta_queue_bounded_witness:
  "deltaSchemaInfos (UpdateAll (\<lambda>ts. 0) 2 oneSecondValidator
      [(0, 0, 1, [10]), (0, 1, 1, [11]), (0, 1, 2, [12]), (0, 2, 3, [13])]) =
     [\<lparr>schemaVersion = 2, relatedTableIDs = [12]\<rparr>, \<lparr>schemaVersion = 3, relatedTableIDs = [13]\<rparr>]"
proof -
  have h: "length (deltaSchemaInfos oneSecondValidator) \<le> 2"
    by (simp add: oneSecondValidator_def NewSchemaValidator_def)
  show ?thesis
    using Update_delta_queue_bounded [OF h, of "\<lambda>ts. 0" "[(0, 0, 1, [10]), (0, 1, 1, [11]), (0, 1, 2, [12]), (0, 2, 3, [13])]"]
    by (simp add: oneSecondValidator_def NewSchemaValidator_def appendedDeltas_def)
qed

section \<open>DDL worker (package ddl: the worker in src/ddl/db_integration_test.go)\<close>

subsection \<open>Jobs, errors and the meta store\<close>

text \<open>
  The job types, job states and schema states of the parser's \<open>model\<close> package.
  \<open>ActionOther\<close> stands for every type value the worker's dispatch does not list.
\<close>

datatype ActionType =
    ActionNone | ActionCreateSchema | ActionDropSchema | ActionCreateTable | ActionDropTable
  | ActionAddColumn | ActionDropColumn | ActionAddIndex | ActionDropIndex
  | ActionAddForeignKey | ActionDropForeignKey | ActionTruncateTable | ActionModifyColumn
  | ActionRebaseAutoID | ActionRenameTable | ActionSetDefaultValue | ActionShardRowID
  | ActionModifyTableComment | ActionRenameIndex | ActionAddTablePartition
  | ActionDropTablePartition | ActionCreateView | ActionModifyTableCharsetAndCollate
  | ActionTruncateTablePartition | ActionDropView | ActionRecoverTable
  | ActionModifySchemaCharsetAndCollate | ActionOther nat

datatype JobState =
    JobStateNone | JobStateRunning | JobStateRollingback | JobStateRollbackDone
  | JobStateDone | JobStateCancelled | JobStateSynced | JobStateCancelling

datatype SchemaState =
    StateNone | StateDeleteOnly | StateWriteOnly | StateWriteReorganization
  | StateDeleteReorganization | StatePublic

text \<open>
  An error is either a \<open>*terror.Error\<close> or any other Go error, each identified by its
  text.  \<open>toTError\<close> keeps the first kind and wraps the second in a new \<open>terror\<close> of
  class DDL that carries its message.
\<close>

datatype error = Terror string | Plain string

fun toTError :: "error \<Rightarrow> error" where
  "toTError (Terror m) = Terror m"
| "toTError (Plain m) = Terror m"

definition errInvalidDDLJob :: error where
  "errInvalidDDLJob = Terror ''invalid ddl job type''"

definition errInvalidJobVersion :: error where
  "errInvalidJobVersion = Terror ''invalid job version''"

definition ErrEntryTooLarge :: error where
  "ErrEntryTooLarge = Terror ''entry too large''"

definition DeadlineExceeded :: error where
  "DeadlineExceeded = Plain ''context deadline exceeded''"

text \<open>
  The fields of \<open>model.Job\<close> the worker reads or writes.  \<open>ErrorCount\<close> is incremented,
  so it is a 64-bit word; the other \<open>int64\<close> fields are only compared and copied.
  \<open>RawArgs\<close> and \<open>Args\<close> are \<open>None\<close> for Go's \<open>nil\<close>.  The \<open>BinlogInfo\<close> of the job is
  the three fields \<open>BinlogSchemaVersion\<close>, \<open>BinlogHasInfo\<close> (some database or table
  information is attached) and \<open>FinishedTS\<close>.
\<close>

record Job =
  ID :: int
  Type :: ActionType
  SchemaID :: int
  TableID :: int
  State :: JobState
  SchemaState :: SchemaState
  Error :: "error option"
  ErrorCount :: "64 word"
  RawArgs :: "string option"
  Args :: "int list option"
  DependencyID :: int
  StartTS :: "64 word"
  Query :: string
  Version :: int
  BinlogSchemaVersion :: int
  BinlogHasInfo :: bool
  FinishedTS :: "64 word"

text \<open>
  The predicates of \<open>model.Job\<close> on the state of the job, as the parser's library defines
  them: each compares the state with one constant, and a job is finished when it is done,
  rolled back or cancelled.
\<close>

definition IsFinished :: "Job \<Rightarrow> bool" where
  "IsFinished job =
     (State job = JobStateDone \<or> State job = JobStateRollbackDone \<or> State job = JobStateCancelled)"

definition IsCancelled :: "Job \<Rightarrow> bool" where
  "IsCancelled job = (State job = JobStateCancelled)"

definition IsRollbackDone :: "Job \<Rightarrow> bool" where
  "IsRollbackDone job = (State job = JobStateRollbackDone)"

definition IsRollingback :: "Job \<Rightarrow> bool" where
  "IsRollingback job = (State job = JobStateRollingback)"

definition IsCancelling :: "Job \<Rightarrow> bool" where
  "IsCancelling job = (State job = JobStateCancelling)"

definition IsSynced :: "Job \<Rightarrow> bool" where
  "IsSynced job = (State job = JobStateSynced)"

definition IsDone :: "Job \<Rightarrow> bool" where
  "IsDone job = (State job = JobStateDone)"

definition IsRunning :: "Job \<Rightarrow> bool" where
  "IsRunning job = (State job = JobStateRunning)"

text \<open>\<open>HistoryInfo.Clean\<close> drops the change-log payload of the job.\<close>

definition BinlogInfo_Clean :: "Job \<Rightarrow> Job" where
  "BinlogInfo_Clean job = job\<lparr>BinlogSchemaVersion := 0, BinlogHasInfo := False\<rparr>"

text \<open>
  A \<open>model.SchemaDiff\<close>.  Its fields \<open>Version\<close>, \<open>Type\<close>, \<open>SchemaID\<close> and \<open>TableID\<close>
  share their names with fields of the job, so they carry the prefix \<open>diff\<close> here.
\<close>

record SchemaDiff =
  diffVersion :: int
  diffType :: ActionType
  diffSchemaID :: int
  diffTableID :: int
  diffOldTableID :: int
  diffOldSchemaID :: int

datatype JobListKey = DefaultJobListKey | AddIndexJobListKey

text \<open>
  Modelled from the spec: the \<open>meta\<close> package (the job queue store, the history store, the
  global ID and schema version counters, the schema diffs) is not among the sources.  The
  store is the part of the key-value space these operations use; the two job lists are
  FIFO lists, the history and the diffs are keyed by job ID and by version.
\<close>

record metaStore =
  globalID :: int
  schemaVersionKey :: int
  defaultJobList :: "Job list"
  addIndexJobList :: "Job list"
  historyJobs :: "int \<rightharpoonup> Job"
  schemaDiffs :: "int \<rightharpoonup> SchemaDiff"

text \<open>
  Any operation on the store can fail.  A \<open>storeFaults\<close> says, for one transaction, which
  operations fail and with which error.
\<close>

record storeFaults =
  failGenGlobalID :: "error option"
  failGetAllDDLJobsInQueue :: "error option"
  failEnQueueDDLJob :: "error option"
  failGetDDLJobByIdx :: "error option"
  failGetHistoryDDLJob :: "error option"
  failUpdateDDLJob :: "error option"
  failDeQueueDDLJob :: "error option"
  failAddHistoryDDLJob :: "error option"
  failGenSchemaVersion :: "error option"
  failSetSchemaDiff :: "error option"
  failCommit :: "error option"

definition noFaults :: storeFaults where
  "noFaults =
     \<lparr>failGenGlobalID = None, failGetAllDDLJobsInQueue = None, failEnQueueDDLJob = None,
      failGetDDLJobByIdx = None, failGetHistoryDDLJob = None, failUpdateDDLJob = None,
      failDeQueueDDLJob = None, failAddHistoryDDLJob = None, failGenSchemaVersion = None,
      failSetSchemaDiff = None, failCommit = None\<rparr>"

definition jobList :: "JobListKey \<Rightarrow> metaStore \<Rightarrow> Job list" where
  "jobList k t = (case k of DefaultJobListKey \<Rightarrow> defaultJobList t | AddIndexJobListKey \<Rightarrow> addIndexJobList t)"

definition setJobList :: "JobListKey \<Rightarrow> Job list \<Rightarrow> metaStore \<Rightarrow> metaStore" where
  "setJobList k js t =
     (case k of DefaultJobListKey \<Rightarrow> t\<lparr>defaultJobList := js\<rparr>
      | AddIndexJobListKey \<Rightarrow> t\<lparr>addIndexJobList := js\<rparr>)"




text \<open>Modelled from the spec: \<open>GetDDLJobByIdx(0)\<close> (PeekFirst), the head of the list or \<open>nil\<close>.\<close>

definition GetDDLJobByIdx0 :: "storeFaults \<Rightarrow> JobListKey \<Rightarrow> metaStore \<Rightarrow> Job option \<times> error option" where
  "GetDDLJobByIdx0 f k t =
     (case failGetDDLJobByIdx f of
        Some e \<Rightarrow> (None, Some e)
      | None \<Rightarrow> (case jobList k t of [] \<Rightarrow> (None, None) | job # rest \<Rightarrow> (Some job, None)))"

text \<open>Modelled from the spec: \<open>DeQueueDDLJob\<close> (Dequeue) removes the head of the list.\<close>

definition DeQueueDDLJob :: "storeFaults \<Rightarrow> JobListKey \<Rightarrow> metaStore \<Rightarrow> Job option \<times> error option \<times> metaStore" where
  "DeQueueDDLJob f k t =
     (case failDeQueueDDLJob f of
        Some e \<Rightarrow> (None, Some e, t)
      | None \<Rightarrow>
          (case jobList k t of
             [] \<Rightarrow> (None, None, t)
           | job # rest \<Rightarrow> (Some job, None, setJobList k rest t)))"

text \<open>
  Modelled from the spec: \<open>UpdateDDLJob(0, job, updateRawArgs)\<close> (UpdateInPlace) replaces the
  head of the list; without \<open>updateRawArgs\<close> the serialized arguments stored before are
  kept.  There is nothing to update in an empty list: that is an error.
\<close>

definition errNoJobToUpdate :: error where
  "errNoJobToUpdate = Plain ''invalid list index''"

definition UpdateDDLJob0 ::
  "storeFaults \<Rightarrow> JobListKey \<Rightarrow> Job \<Rightarrow> bool \<Rightarrow> metaStore \<Rightarrow> error option \<times> metaStore" where
  "UpdateDDLJob0 f k job updateRawArgs t =
     (case failUpdateDDLJob f of
        Some e \<Rightarrow> (Some e, t)
      | None \<Rightarrow>
          (case jobList k t of
             [] \<Rightarrow> (Some errNoJobToUpdate, t)
           | old # rest \<Rightarrow>
               (None, setJobList k
                  ((if updateRawArgs then job else job\<lparr>RawArgs := RawArgs old\<rparr>) # rest) t)))"

text \<open>Modelled from the spec: \<open>AddHistoryDDLJob\<close> (AppendToHistory), the history keyed by job ID.\<close>

definition AddHistoryDDLJob :: "storeFaults \<Rightarrow> Job \<Rightarrow> metaStore \<Rightarrow> error option \<times> metaStore" where
  "AddHistoryDDLJob f job t =
     (case failAddHistoryDDLJob f of
        Some e \<Rightarrow> (Some e, t)
      | None \<Rightarrow> (None, t\<lparr>historyJobs := (historyJobs t)(ID job \<mapsto> job)\<rparr>))"

text \<open>Modelled from the spec: \<open>GetHistoryDDLJob\<close> (GetFromHistory), the job or \<open>nil\<close>.\<close>

definition GetHistoryDDLJob :: "storeFaults \<Rightarrow> int \<Rightarrow> metaStore \<Rightarrow> Job option \<times> error option" where
  "GetHistoryDDLJob f jobID t =
     (case failGetHistoryDDLJob f of
        Some e \<Rightarrow> (None, Some e)
      | None \<Rightarrow> (historyJobs t jobID, None))"

text \<open>Modelled from the spec: \<open>GenSchemaVersion\<close>, the next version number.\<close>

definition GenSchemaVersion :: "storeFaults \<Rightarrow> metaStore \<Rightarrow> int \<times> error option \<times> metaStore" where
  "GenSchemaVersion f t =
     (case failGenSchemaVersion f of
        Some e \<Rightarrow> (0, Some e, t)
      | None \<Rightarrow> (schemaVersionKey t + 1, None, t\<lparr>schemaVersionKey := schemaVersionKey t + 1\<rparr>))"

text \<open>Modelled from the spec: \<open>SetSchemaDiff\<close> writes the diff keyed by its version.\<close>

definition SetSchemaDiff :: "storeFaults \<Rightarrow> SchemaDiff \<Rightarrow> metaStore \<Rightarrow> error option \<times> metaStore" where
  "SetSchemaDiff f diff t =
     (case failSetSchemaDiff f of
        Some e \<Rightarrow> (Some e, t)
      | None \<Rightarrow> (None, t\<lparr>schemaDiffs := (schemaDiffs t)(diffVersion diff \<mapsto> diff)\<rparr>))"

text \<open>
  Modelled from the spec: \<open>kv.RunInNewTxn\<close> (RunInTransaction), all-or-nothing.  The closure
  runs on the snapshot \<open>t\<close> and returns its error, what it left in the memory of the
  caller (\<open>out\<close>) and the store it wrote.  The writes are committed only when the closure
  returns no error and the commit succeeds; otherwise the store stays as it was.  A retry
  after a conflict is a new attempt of this kind on a later snapshot.
\<close>

definition RunInNewTxn ::
  "storeFaults \<Rightarrow> metaStore \<Rightarrow> (metaStore \<Rightarrow> error option \<times> 'a \<times> metaStore)
     \<Rightarrow> error option \<times> 'a \<times> metaStore" where
  "RunInNewTxn f t body =
     (case body t of
        (Some e, out, t') \<Rightarrow> (Some e, out, t)
      | (None, out, t') \<Rightarrow>
          (case failCommit f of Some e \<Rightarrow> (Some e, out, t) | None \<Rightarrow> (None, out, t')))"

subsection \<open>The collaborators of the worker\<close>

text \<open>
  What the worker calls and the sources do not hold is a field of the environment:
  \<^item> the faults of the store and the start timestamp of the transaction;
  \<^item> \<open>Job.IsDependentOn\<close>, \<open>ActionType.String\<close> and \<open>Job.DecodeArgs\<close> (for one \<open>int64\<close>
    argument, and for the check flag \<open>finishRecoverTable\<close> reads) of the parser's \<open>model\<close>
    package;
  \<^item> the package constants \<open>currentVersion\<close> and \<open>recoverTableCheckFlagEnableGC\<close>;
  \<^item> \<open>step\<close>, the functions \<open>onCreateSchema\<close>, \<open>onCreateTable\<close>, ... that carry out one
    step of a job according to its type, and \<open>convertJob2RollbackJob\<close>; either returns
    the job and the store as it left them, the schema version and an error, or panics;
  \<^item> \<open>errorCountLimit\<close>, what \<open>variable.GetDDLErrorCountLimit\<close> returns once
    \<open>loadDDLVars\<close> has run, and \<open>admin.IsJobRollbackable\<close>;
  \<^item> the worker's type, whether this node is the owner, whether the quit channel is
    closed, the lease \<open>d.lease\<close>;
  \<^item> \<open>delRangeManager.addDelRangeJob\<close> and \<open>enableGC\<close>, which work outside the transaction;
  \<^item> the answers of the schema syncer.
\<close>

datatype stepResult = Returned Job metaStore int "error option" | Panicked Job metaStore

datatype workerType = generalWorker | addIdxWorker | unknownWorker

record env =
  faults :: storeFaults
  isDependentOn :: "Job \<Rightarrow> Job \<Rightarrow> error + bool"
  typeString :: "ActionType \<Rightarrow> string"
  decodeArgs :: "Job \<Rightarrow> error + int"
  txnStartTS :: "64 word"
  currentVersion :: int
  step :: "Job \<Rightarrow> metaStore \<Rightarrow> stepResult"
  convertJob2RollbackJob :: "Job \<Rightarrow> metaStore \<Rightarrow> stepResult"
  errorCountLimit :: "64 word"
  isJobRollbackable :: "Job \<Rightarrow> bool"
  workerTp :: workerType
  isOwner :: bool
  quit :: bool
  ddlLease :: duration
  addDelRangeJob :: "Job \<Rightarrow> error option"
  decodeRecoverTableCheckFlag :: "Job \<Rightarrow> error + int"
  recoverTableCheckFlagEnableGC :: int
  enableGC :: "error option"
  mustGetGlobalVersion :: "error + int"
  ownerUpdateGlobalVersion :: "int \<Rightarrow> error option"
  ownerCheckAllVersions :: "int \<Rightarrow> error option"

definition AddIndexStr :: string where
  "AddIndexStr = ''add index''"

definition noneDependencyJob :: int where
  "noneDependencyJob = 0"

definition newMetaWithQueueTp :: "string \<Rightarrow> JobListKey" where
  "newMetaWithQueueTp tp = (if tp = AddIndexStr then AddIndexJobListKey else DefaultJobListKey)"

subsection \<open>buildJobDependence and addDDLJob\<close>

text \<open>
  The loop of \<open>buildJobDependence\<close> over the jobs of the other queue, in queue order.
  It returns the error of \<open>IsDependentOn\<close>, if any, and the current job.
\<close>

fun findDependence :: "env \<Rightarrow> Job \<Rightarrow> Job list \<Rightarrow> error option \<times> Job" where
  "findDependence e curJob [] = (None, curJob)"
| "findDependence e curJob (job # jobs) =
     (if ID curJob < ID job then findDependence e curJob jobs
      else
        (case isDependentOn e curJob job of
           Inl err \<Rightarrow> (Some err, curJob)
         | Inr isDependent \<Rightarrow>
             if isDependent then (None, curJob\<lparr>DependencyID := ID job\<rparr>)
             else findDependence e curJob jobs))"




subsection \<open>updateSchemaVersion\<close>

definition updateSchemaVersion :: "env \<Rightarrow> metaStore \<Rightarrow> Job \<Rightarrow> int \<times> error option \<times> metaStore" where
  "updateSchemaVersion e t job =
     (case GenSchemaVersion (faults e) t of
        (ver, Some err, t1) \<Rightarrow> (0, Some err, t1)
      | (ver, None, t1) \<Rightarrow>
          (let diff = \<lparr>diffVersion = ver, diffType = Type job, diffSchemaID = SchemaID job,
                       diffTableID = 0, diffOldTableID = 0, diffOldSchemaID = 0\<rparr>
           in if Type job = ActionTruncateTable then
                (case decodeArgs e job of
                   Inl err \<Rightarrow> (0, Some err, t1)
                 | Inr newTableID \<Rightarrow>
                     (case SetSchemaDiff (faults e)
                             (diff\<lparr>diffTableID := newTableID, diffOldTableID := TableID job\<rparr>) t1 of
                        (err, t2) \<Rightarrow> (ver, err, t2)))
              else if Type job = ActionRenameTable then
                (case decodeArgs e job of
                   Inl err \<Rightarrow> (0, Some err, t1)
                 | Inr oldSchemaID \<Rightarrow>
                     (case SetSchemaDiff (faults e)
                             (diff\<lparr>diffOldSchemaID := oldSchemaID, diffTableID := TableID job\<rparr>) t1 of
                        (err, t2) \<Rightarrow> (ver, err, t2)))
              else
                (case SetSchemaDiff (faults e) (diff\<lparr>diffTableID := TableID job\<rparr>) t1 of
                   (err, t2) \<Rightarrow> (ver, err, t2))))"

subsection \<open>runDDLJob\<close>

text \<open>The job types \<open>runDDLJob\<close> dispatches; any other type is an invalid job.\<close>

definition dispatchable :: "ActionType \<Rightarrow> bool" where
  "dispatchable tp =
     (case tp of
        ActionCreateSchema \<Rightarrow> True | ActionModifySchemaCharsetAndCollate \<Rightarrow> True
      | ActionDropSchema \<Rightarrow> True | ActionCreateTable \<Rightarrow> True | ActionCreateView \<Rightarrow> True
      | ActionDropTable \<Rightarrow> True | ActionDropView \<Rightarrow> True | ActionDropTablePartition \<Rightarrow> True
      | ActionTruncateTablePartition \<Rightarrow> True | ActionAddColumn \<Rightarrow> True
      | ActionDropColumn \<Rightarrow> True | ActionModifyColumn \<Rightarrow> True
      | ActionSetDefaultValue \<Rightarrow> True | ActionAddIndex \<Rightarrow> True | ActionDropIndex \<Rightarrow> True
      | ActionRenameIndex \<Rightarrow> True | ActionAddForeignKey \<Rightarrow> True
      | ActionDropForeignKey \<Rightarrow> True | ActionTruncateTable \<Rightarrow> True
      | ActionRebaseAutoID \<Rightarrow> True | ActionRenameTable \<Rightarrow> True | ActionShardRowID \<Rightarrow> True
      | ActionModifyTableComment \<Rightarrow> True | ActionAddTablePartition \<Rightarrow> True
      | ActionModifyTableCharsetAndCollate \<Rightarrow> True | ActionRecoverTable \<Rightarrow> True
      | _ \<Rightarrow> False)"

definition dispatch :: "env \<Rightarrow> metaStore \<Rightarrow> Job \<Rightarrow> stepResult" where
  "dispatch e t job =
     (if dispatchable (Type job) then step e job t
      else Returned (job\<lparr>State := JobStateCancelled\<rparr>) t 0 (Some errInvalidDDLJob))"

definition runDDLJob :: "env \<Rightarrow> metaStore \<Rightarrow> Job \<Rightarrow> stepResult" where
  "runDDLJob e t job =
     (if IsFinished job then Returned job t 0 None
      else if IsCancelling job then convertJob2RollbackJob e job t
      else
        (let job1 = (if \<not> IsRollingback job \<and> \<not> IsCancelling job
                     then job\<lparr>State := JobStateRunning\<rparr> else job)
         in case dispatch e t job1 of
              Panicked job2 t1 \<Rightarrow> Panicked job2 t1
            | Returned job2 t1 ver None \<Rightarrow> Returned job2 t1 ver None
            | Returned job2 t1 ver (Some err) \<Rightarrow>
                (let job3 = job2\<lparr>Error := Some (toTError err), ErrorCount := ErrorCount job2 + 1\<rparr>
                 in if State job3 = JobStateCancelled then Returned job3 t1 ver None
                    else if errorCountLimit e <s ErrorCount job3 \<and> State job3 = JobStateRunning
                            \<and> isJobRollbackable e job3
                    then Returned (job3\<lparr>State := JobStateCancelling\<rparr>) t1 ver (Some err)
                    else Returned job3 t1 ver (Some err))))"

subsection \<open>Finishing a job\<close>

definition deleteRange :: "env \<Rightarrow> Job \<Rightarrow> error option" where
  "deleteRange e job =
     (if Version job \<le> currentVersion e then addDelRangeJob e job
      else Some errInvalidJobVersion)"

definition finishRecoverTable :: "env \<Rightarrow> Job \<Rightarrow> error option" where
  "finishRecoverTable e job =
     (case decodeRecoverTableCheckFlag e job of
        Inl err \<Rightarrow> Some err
      | Inr recoverTableCheckFlag \<Rightarrow>
          if recoverTableCheckFlag = recoverTableCheckFlagEnableGC e then enableGC e else None)"

text \<open>The two \<open>switch\<close> statements of \<open>finishDDLJob\<close>, which decide its error before the dequeue.\<close>

definition finishPrepare :: "env \<Rightarrow> Job \<Rightarrow> error option" where
  "finishPrepare e job =
     (let err =
        (if \<not> IsCancelled job then
           (case Type job of
              ActionAddIndex \<Rightarrow>
                if State job \<noteq> JobStateRollbackDone then None else deleteRange e job
            | ActionDropSchema \<Rightarrow> deleteRange e job
            | ActionDropTable \<Rightarrow> deleteRange e job
            | ActionTruncateTable \<Rightarrow> deleteRange e job
            | ActionDropIndex \<Rightarrow> deleteRange e job
            | ActionDropTablePartition \<Rightarrow> deleteRange e job
            | ActionTruncateTablePartition \<Rightarrow> deleteRange e job
            | _ \<Rightarrow> None)
         else None)
      in case Type job of ActionRecoverTable \<Rightarrow> finishRecoverTable e job | _ \<Rightarrow> err)"

definition finishDDLJob :: "env \<Rightarrow> JobListKey \<Rightarrow> metaStore \<Rightarrow> Job \<Rightarrow> error option \<times> Job \<times> metaStore" where
  "finishDDLJob e k t job =
     (case finishPrepare e job of
        Some err \<Rightarrow> (Some err, job, t)
      | None \<Rightarrow>
          (case DeQueueDDLJob (faults e) k t of
             (_, Some err, t1) \<Rightarrow> (Some err, job, t1)
           | (_, None, t1) \<Rightarrow>
               (let job1 = job\<lparr>FinishedTS := txnStartTS e\<rparr>
                in case AddHistoryDDLJob (faults e) job1 t1 of
                     (err, t2) \<Rightarrow> (err, job1, t2))))"

definition isDependencyJobDone :: "env \<Rightarrow> metaStore \<Rightarrow> Job \<Rightarrow> bool \<times> error option \<times> Job" where
  "isDependencyJobDone e t job =
     (if DependencyID job = noneDependencyJob then (True, None, job)
      else
        (case GetHistoryDDLJob (faults e) (DependencyID job) t of
           (_, Some err) \<Rightarrow> (False, Some err, job)
         | (None, None) \<Rightarrow> (False, None, job)
         | (Some historyJob, None) \<Rightarrow> (True, None, job\<lparr>DependencyID := noneDependencyJob\<rparr>)))"

definition updateDDLJob :: "env \<Rightarrow> JobListKey \<Rightarrow> metaStore \<Rightarrow> Job \<Rightarrow> bool \<Rightarrow> error option \<times> metaStore" where
  "updateDDLJob e k t job meetErr =
     (let updateRawArgs = (if meetErr \<and> (RawArgs job \<noteq> None \<and> Args job = None) then False else True)
      in UpdateDDLJob0 (faults e) k job updateRawArgs t)"

definition handleUpdateJobError ::
  "env \<Rightarrow> JobListKey \<Rightarrow> metaStore \<Rightarrow> Job \<Rightarrow> error option \<Rightarrow> error option \<times> Job \<times> metaStore" where
  "handleUpdateJobError e k t job err =
     (case err of
        None \<Rightarrow> (None, job, t)
      | Some er \<Rightarrow>
          if er = ErrEntryTooLarge then
            finishDDLJob e k t
              ((BinlogInfo_Clean job)\<lparr>Error := Some (toTError er), SchemaState := StateNone,
                 State := JobStateCancelled\<rparr>)
          else (Some er, job, t))"

subsection \<open>Waiting for the schema to be synced\<close>

text \<open>
  What the worker does outside the store is a list of events: a sleep, and the calls of the
  schema syncer, each with the timeout of its context and the version it is given.
\<close>

datatype event =
    Sleep duration
  | MustGetGlobalVersion duration
  | OwnerUpdateGlobalVersion duration int
  | OwnerCheckAllVersions duration int
  | NotifyCleanExpiredPaths
  | WaitUntilTimeout duration
  | NotifyJobDone

definition WaitTimeWhenErrorOccured :: duration where
  "WaitTimeWhenErrorOccured = 1 * Second"

definition waitDependencyJobInterval :: duration where
  "waitDependencyJobInterval = 200 * Millisecond"

text \<open>
  \<open>ctx\<close> is \<open>None\<close> for a \<open>nil\<close> context and else the timeout the context was made with.
\<close>

definition waitSchemaChanged :: "env \<Rightarrow> duration option \<Rightarrow> duration \<Rightarrow> int \<Rightarrow> Job \<Rightarrow> event list" where
  "waitSchemaChanged e ctx waitTime latestSchemaVersion job =
     (if \<not> IsRunning job \<and> \<not> IsRollingback job \<and> \<not> IsDone job \<and> \<not> IsRollbackDone job then []
      else if waitTime = 0 then []
      else if latestSchemaVersion = 0 then []
      else
        (let timeout = (case ctx of None \<Rightarrow> waitTime | Some c \<Rightarrow> c);
             check =
               OwnerCheckAllVersions timeout latestSchemaVersion #
               (case ownerCheckAllVersions e latestSchemaVersion of
                  None \<Rightarrow> []
                | Some err \<Rightarrow>
                    if err = DeadlineExceeded then []
                    else [NotifyCleanExpiredPaths, WaitUntilTimeout timeout])
         in OwnerUpdateGlobalVersion timeout latestSchemaVersion #
            (case ownerUpdateGlobalVersion e latestSchemaVersion of
               None \<Rightarrow> check
             | Some err \<Rightarrow> if err = DeadlineExceeded then [] else check)))"

definition waitSchemaSynced :: "env \<Rightarrow> Job \<Rightarrow> duration \<Rightarrow> event list" where
  "waitSchemaSynced e job waitTime =
     (if \<not> IsRunning job \<and> \<not> IsRollingback job \<and> \<not> IsDone job \<and> \<not> IsRollbackDone job then []
      else
        MustGetGlobalVersion waitTime #
        (case mustGetGlobalVersion e of
           Inl err \<Rightarrow> []
         | Inr latestSchemaVersion \<Rightarrow>
             waitSchemaChanged e (Some waitTime) waitTime latestSchemaVersion job))"

text \<open>
  \<open>waitDependencyJobFinished\<close>: the counter only throttles the log.
\<close>

definition waitDependencyJobFinished :: "Job \<Rightarrow> int \<Rightarrow> event list \<times> int" where
  "waitDependencyJobFinished job cnt =
     (if DependencyID job \<noteq> noneDependencyJob then ([Sleep waitDependencyJobInterval], cnt + 1)
      else ([], 0))"

subsection \<open>One iteration of handleDDLJobQueue\<close>

definition typeStr :: "workerType \<Rightarrow> string" where
  "typeStr w = (case w of generalWorker \<Rightarrow> ''general'' | addIdxWorker \<Rightarrow> AddIndexStr
                | unknownWorker \<Rightarrow> ''unknow'')"

text \<open>
  What the closure of the iteration leaves in the variables of the loop: the job, the
  schema version and the error of \<open>runDDLJob\<close>, the flag \<open>once\<close>, and the events of
  \<open>waitSchemaSynced\<close>.
\<close>

record txnOut =
  outJob :: "Job option"
  outSchemaVer :: int
  outRunJobErr :: "error option"
  outOnce :: bool
  outEvents :: "event list"

definition noJob :: "bool \<Rightarrow> txnOut" where
  "noJob once = \<lparr>outJob = None, outSchemaVer = 0, outRunJobErr = None, outOnce = once, outEvents = []\<rparr>"

definition withJob :: "bool \<Rightarrow> Job \<Rightarrow> txnOut" where
  "withJob once job = (noJob once)\<lparr>outJob := Some job\<rparr>"

text \<open>
  The part of the closure after \<open>runDDLJob\<close>, which \<open>WithRecovery\<close> runs: a panic leaves
  the schema version and the error at their zero values and sets the job to cancelling.
  \<open>t0\<close> is the snapshot of the transaction, to which \<open>txn.Reset\<close> goes back.
\<close>

definition afterRun ::
  "env \<Rightarrow> JobListKey \<Rightarrow> metaStore \<Rightarrow> stepResult \<Rightarrow> error option \<times> txnOut \<times> metaStore" where
  "afterRun e k t0 r =
     (let (job, t1, schemaVer, runJobErr) =
            (case r of
               Returned j t' ver err \<Rightarrow> (j, t', ver, err)
             | Panicked j t' \<Rightarrow> (j\<lparr>State := JobStateCancelling\<rparr>, t', 0, None));
          out = \<lparr>outJob = Some job, outSchemaVer = schemaVer, outRunJobErr = runJobErr,
                 outOnce = False, outEvents = []\<rparr>
      in if IsCancelled job then
           (case finishDDLJob e k t0 job of
              (err, job', t2) \<Rightarrow> (err, out\<lparr>outJob := Some job'\<rparr>, t2))
         else
           (case updateDDLJob e k t1 job (runJobErr \<noteq> None) of
              (err, t2) \<Rightarrow>
                (case handleUpdateJobError e k t2 job err of
                   (err', job', t3) \<Rightarrow> (err', out\<lparr>outJob := Some job'\<rparr>, t3))))"

definition handleDDLJobQueueTxn ::
  "env \<Rightarrow> bool \<Rightarrow> metaStore \<Rightarrow> error option \<times> txnOut \<times> metaStore" where
  "handleDDLJobQueueTxn e once t =
     (if \<not> isOwner e then (None, noJob once, t)
      else
        (let k = newMetaWithQueueTp (typeStr (workerTp e))
         in case GetDDLJobByIdx0 (faults e) k t of
              (None, err) \<Rightarrow> (err, noJob once, t)
            | (Some job, Some err) \<Rightarrow> (Some err, withJob once job, t)
            | (Some job, None) \<Rightarrow>
                (case isDependencyJobDone e t job of
                   (isDone, Some err1, job1) \<Rightarrow> (Some err1, withJob once job1, t)
                 | (False, None, job1) \<Rightarrow> (None, withJob once job1, t)
                 | (True, None, job1) \<Rightarrow>
                     if once then
                       (None, (withJob False job1)\<lparr>outEvents := waitSchemaSynced e job1 (2 * ddlLease e)\<rparr>, t)
                     else if IsDone job1 \<or> IsRollbackDone job1 then
                       (let job2 = (if \<not> IsRollbackDone job1 then job1\<lparr>State := JobStateSynced\<rparr>
                                    else job1)
                        in case finishDDLJob e k t job2 of
                             (err, job3, t1) \<Rightarrow> (err, withJob once job3, t1))
                     else afterRun e k t (runDDLJob e t job1))))"

text \<open>
  What the iteration does once the transaction has returned: the sleep after an error of
  \<open>runDDLJob\<close>, then, when the transaction has no error and there is a job, the wait for
  the dependency, \<open>waitSchemaChanged\<close> and the notification of a finished job.
  The result says whether the loop goes on.
\<close>

definition afterTxn :: "env \<Rightarrow> error option \<Rightarrow> txnOut \<Rightarrow> int \<Rightarrow> bool \<times> int \<times> event list" where
  "afterTxn e err out cnt =
     (let sleep = (if outRunJobErr out \<noteq> None then [Sleep WaitTimeWhenErrorOccured] else [])
      in case err of
           Some er \<Rightarrow> (False, cnt, outEvents out @ sleep)
         | None \<Rightarrow>
             (case outJob out of
                None \<Rightarrow> (False, cnt, outEvents out @ sleep)
              | Some job \<Rightarrow>
                  (case waitDependencyJobFinished job cnt of
                     (evs, cnt') \<Rightarrow>
                       (True, cnt',
                        outEvents out @ sleep @ evs @
                        waitSchemaChanged e None (2 * ddlLease e) (outSchemaVer out) job @
                        (if IsSynced job \<or> IsCancelled job then [NotifyJobDone] else [])))))"

definition handleDDLJobQueueIter ::
  "env \<Rightarrow> bool \<Rightarrow> int \<Rightarrow> metaStore \<Rightarrow> (bool \<times> int \<times> event list) \<times> error option \<times> txnOut \<times> metaStore" where
  "handleDDLJobQueueIter e once cnt t =
     (if quit e then ((False, cnt, []), None, noJob once, t)
      else
        (case RunInNewTxn (faults e) t (handleDDLJobQueueTxn e once) of
           (err, out, t') \<Rightarrow> (afterTxn e err out cnt, err, out, t')))"

text \<open>
  The loop of \<open>handleDDLJobQueue\<close> repeats the iteration until the iteration returns.  Each
  iteration meets an environment of its own (the faults, the ownership, the answers of the
  syncer can change), so the loop runs over a list of environments.  It yields the error
  it returns, or \<open>None\<close> when it is still running after the last environment of the list,
  with the stores its iterations committed, in order, and the events.
\<close>

fun handleDDLJobQueue ::
  "env list \<Rightarrow> bool \<Rightarrow> int \<Rightarrow> metaStore \<Rightarrow> error option option \<times> metaStore list \<times> event list" where
  "handleDDLJobQueue [] once cnt t = (None, [], [])"
| "handleDDLJobQueue (e # es) once cnt t =
     (case handleDDLJobQueueIter e once cnt t of
        ((continue, cnt', evs), err, out, t') \<Rightarrow>
          if continue then
            (case handleDDLJobQueue es (outOnce out) cnt' t' of
               (r, ts, evs') \<Rightarrow> (r, t' # ts, evs @ evs'))
          else (Some err, [t'], evs))"

subsection \<open>Definitions that state the properties of the worker\<close>

text \<open>
  The step functions work on the schema, not on the job queues: a result keeps the ID of
  the job, the two job lists and the history.
\<close>

definition sameQueues :: "Job \<Rightarrow> metaStore \<Rightarrow> stepResult \<Rightarrow> bool" where
  "sameQueues job t r =
     (case r of
        Returned job' t' ver err \<Rightarrow>
          ID job' = ID job \<and> defaultJobList t' = defaultJobList t \<and>
          addIndexJobList t' = addIndexJobList t \<and> historyJobs t' = historyJobs t
      | Panicked job' t' \<Rightarrow>
          ID job' = ID job \<and> defaultJobList t' = defaultJobList t \<and>
          addIndexJobList t' = addIndexJobList t \<and> historyJobs t' = historyJobs t)"

definition keepsQueues :: "env \<Rightarrow> bool" where
  "keepsQueues e =
     (\<forall>job t. sameQueues job t (step e job t) \<and> sameQueues job t (convertJob2RollbackJob e job t))"

text \<open>
  The two ways a committed iteration leaves the head \<open>h\<close> of the queue: it is still the
  head, the history untouched; or it is gone from the queue and the history holds, under
  its ID, a job in a final state.
\<close>

definition jobKept :: "JobListKey \<Rightarrow> Job \<Rightarrow> Job list \<Rightarrow> metaStore \<Rightarrow> metaStore \<Rightarrow> bool" where
  "jobKept k h rest t t' =
     (historyJobs t' = historyJobs t \<and> (\<exists>h'. ID h' = ID h \<and> jobList k t' = h' # rest))"

definition jobMoved :: "JobListKey \<Rightarrow> Job \<Rightarrow> Job list \<Rightarrow> metaStore \<Rightarrow> metaStore \<Rightarrow> bool" where
  "jobMoved k h rest t t' =
     (jobList k t' = rest \<and>
      (\<exists>j. ID j = ID h \<and>
           (State j = JobStateSynced \<or> State j = JobStateRollbackDone \<or> State j = JobStateCancelled) \<and>
           historyJobs t' = (historyJobs t)(ID h \<mapsto> j)))"

text \<open>The IDs of the jobs a store holds in the queue \<open>k\<close> or in the history.\<close>

definition tracked :: "JobListKey \<Rightarrow> metaStore \<Rightarrow> int set" where
  "tracked k t = ID ` set (jobList k t) \<union> dom (historyJobs t)"

text \<open>The timeout of the context a call of the schema syncer is given.\<close>

definition eventTimeout :: "event \<Rightarrow> duration option" where
  "eventTimeout ev =
     (case ev of
        MustGetGlobalVersion d \<Rightarrow> Some d
      | OwnerUpdateGlobalVersion d ver \<Rightarrow> Some d
      | OwnerCheckAllVersions d ver \<Rightarrow> Some d
      | WaitUntilTimeout d \<Rightarrow> Some d
      | _ \<Rightarrow> None)"


text \<open>Concrete jobs, stores and environments.\<close>

definition emptyJob :: Job where
  "emptyJob =
     \<lparr>ID = 0, Type = ActionNone, SchemaID = 0, TableID = 0, State = JobStateNone,
      SchemaState = StateNone, Error = None, ErrorCount = 0, RawArgs = None, Args = None,
      DependencyID = 0, StartTS = 0, Query = [], Version = 0, BinlogSchemaVersion = 0,
      BinlogHasInfo = False, FinishedTS = 0\<rparr>"

definition emptyStore :: metaStore where
  "emptyStore =
     \<lparr>globalID = 0, schemaVersionKey = 0, defaultJobList = [], addIndexJobList = [],
      historyJobs = Map.empty, schemaDiffs = Map.empty\<rparr>"

text \<open>
  An environment without faults, where two jobs depend on each other when they are on
  the same table, as \<open>IsDependentOn\<close> decides for jobs of one schema.
\<close>

definition sameTableEnv :: env where
  "sameTableEnv =
     \<lparr>faults = noFaults,
      isDependentOn = (\<lambda>job other. Inr (TableID other = TableID job)),
      typeString = (\<lambda>tp. if tp = ActionAddIndex then AddIndexStr else ''other''),
      decodeArgs = (\<lambda>job. case Args job of Some (a # as) \<Rightarrow> Inr a | _ \<Rightarrow> Inl (Plain ''no argument'')),
      txnStartTS = 400, currentVersion = 1,
      step = (\<lambda>job t. Returned job t 0 None),
      convertJob2RollbackJob = (\<lambda>job t. Returned (job\<lparr>State := JobStateCancelled\<rparr>) t 0 None),
      errorCountLimit = 2,
      isJobRollbackable = (\<lambda>job. True),
      workerTp = generalWorker, isOwner = True, quit = False, ddlLease = 0,
      addDelRangeJob = (\<lambda>job. None),
      decodeRecoverTableCheckFlag = (\<lambda>job. Inr 0),
      recoverTableCheckFlagEnableGC = 1,
      enableGC = None,
      mustGetGlobalVersion = Inr 0,
      ownerUpdateGlobalVersion = (\<lambda>ver. None),
      ownerCheckAllVersions = (\<lambda>ver. None)\<rparr>"



definition renameJob :: Job where
  "renameJob = emptyJob\<lparr>ID := 11, Type := ActionRenameTable, SchemaID := 2, TableID := 7, Args := Some [3]\<rparr>"

definition truncateJob :: Job where
  "truncateJob = emptyJob\<lparr>ID := 12, Type := ActionTruncateTable, SchemaID := 2, TableID := 7, Args := Some [8]\<rparr>"

text \<open>An environment whose step functions fail, and a queue of two jobs.\<close>

definition conflictEnv :: env where
  "conflictEnv = sameTableEnv\<lparr>step := (\<lambda>job t. Returned job t 0 (Some (Plain ''conflict'')))\<rparr>"

definition addColumnJob :: Job where
  "addColumnJob = emptyJob\<lparr>ID := 4, Type := ActionAddColumn, TableID := 9, State := JobStateRunning\<rparr>"

definition createTableJob :: Job where
  "createTableJob = emptyJob\<lparr>ID := 6, Type := ActionCreateTable, TableID := 10\<rparr>"

definition twoJobsStore :: "JobState \<Rightarrow> metaStore" where
  "twoJobsStore st = emptyStore\<lparr>globalID := 6, defaultJobList := [addColumnJob\<lparr>State := st\<rparr>, createTableJob]\<rparr>"

text \<open>
  An environment whose step function bumps the schema version, with the lease \<open>l\<close>, and what
  its iteration on the queue of two jobs leaves in the variables of the loop.
\<close>

definition bumpEnv :: "duration \<Rightarrow> env" where
  "bumpEnv l =
     sameTableEnv\<lparr>ddlLease := l,
       step := (\<lambda>job t. Returned job (t\<lparr>schemaVersionKey := schemaVersionKey t + 1\<rparr>)
                  (schemaVersionKey t + 1) None)\<rparr>"

definition bumpedOut :: txnOut where
  "bumpedOut =
     \<lparr>outJob = Some addColumnJob, outSchemaVer = 1, outRunJobErr = None, outOnce = False,
      outEvents = []\<rparr>"


definition historyFails :: env where
  "historyFails = sameTableEnv\<lparr>faults := noFaults\<lparr>failAddHistoryDDLJob := Some (Plain ''write failed'')\<rparr>\<rparr>"

subsection \<open>Reading a store after a write to a job list\<close>

lemma jobList_setJobList [simp]: "jobList k (setJobList k js t) = js"
  by (cases k) (simp_all add: jobList_def setJobList_def)

lemma historyJobs_setJobList [simp]: "historyJobs (setJobList k js t) = historyJobs t"
  by (cases k) (simp_all add: setJobList_def)

lemma jobList_historyJobs_update [simp]: "jobList k (t\<lparr>historyJobs := m\<rparr>) = jobList k t"
  by (cases k) (simp_all add: jobList_def)

lemma globalID_setJobList [simp]: "globalID (setJobList k js t) = globalID t"
  by (cases k) (simp_all add: setJobList_def)

subsection \<open>The dependency of a new job\<close>

text \<open>
  What the loop of \<open>buildJobDependence\<close> finds: the first job in queue order, among those
  whose ID is not greater than the new job's, for which \<open>IsDependentOn\<close> does not answer
  \<open>false\<close>.  Without such a job the new job is left as it is.
\<close>

lemma findDependence_first:
  "findDependence e curJob jobs =
     (case find (\<lambda>job. \<not> ID curJob < ID job \<and> isDependentOn e curJob job \<noteq> Inr False) jobs of
        None \<Rightarrow> (None, curJob)
      | Some job \<Rightarrow>
          (case isDependentOn e curJob job of
             Inl err \<Rightarrow> (Some err, curJob)
           | Inr b \<Rightarrow> (None, curJob\<lparr>DependencyID := ID job\<rparr>)))"
proof (induction jobs)
  case Nil
  show ?case by simp
next
  case (Cons job jobs)
  show ?case
  proof (cases "isDependentOn e curJob job")
    case (Inl err)
    with Cons show ?thesis by simp
  next
    case (Inr b)
    with Cons show ?thesis by (cases b) simp_all
  qed
qed


subsection \<open>Enqueuing a job\<close>








subsection \<open>The version bump\<close>

text \<open>
  C6, as the claim states it, fails.  For a rename the diff does not carry an old table ID:
  the decoded argument is the old schema ID and goes to \<open>OldSchemaID\<close>, \<open>OldTableID\<close> stays 0;
  only the diff of a truncate carries two table IDs.  And not every call writes a diff:
  when the arguments of the job cannot be decoded the version is allocated, nothing is
  written and the result is 0 with the error.
\<close>

theorem updateSchemaVersion_rename_counterexample:
  "fst (updateSchemaVersion sameTableEnv emptyStore renameJob) = 1 \<and>
   schemaDiffs (snd (snd (updateSchemaVersion sameTableEnv emptyStore renameJob))) 1 =
     Some \<lparr>diffVersion = 1, diffType = ActionRenameTable, diffSchemaID = 2, diffTableID = 7,
           diffOldTableID = 0, diffOldSchemaID = 3\<rparr> \<and>
   schemaDiffs (snd (snd (updateSchemaVersion sameTableEnv emptyStore truncateJob))) 1 =
     Some \<lparr>diffVersion = 1, diffType = ActionTruncateTable, diffSchemaID = 2, diffTableID = 8,
           diffOldTableID = 7, diffOldSchemaID = 0\<rparr> \<and>
   updateSchemaVersion sameTableEnv emptyStore (truncateJob\<lparr>Args := None\<rparr>) =
     (0, Some (Plain ''no argument''), emptyStore\<lparr>schemaVersionKey := 1\<rparr>)"
  by (simp add: updateSchemaVersion_def GenSchemaVersion_def SetSchemaDiff_def sameTableEnv_def
      noFaults_def emptyStore_def renameJob_def truncateJob_def emptyJob_def)

lemma updateSchemaVersion_ok:
  assumes "updateSchemaVersion e t job = (ver, None, t')"
  shows "ver = schemaVersionKey t + 1 \<and>
         (\<exists>d. t' = t\<lparr>schemaVersionKey := ver, schemaDiffs := (schemaDiffs t)(ver \<mapsto> d)\<rparr> \<and>
              diffVersion d = ver \<and> diffType d = Type job \<and> diffSchemaID d = SchemaID job \<and>
              (if Type job = ActionTruncateTable then
                 decodeArgs e job = Inr (diffTableID d) \<and> diffOldTableID d = TableID job \<and>
                 diffOldSchemaID d = 0
               else if Type job = ActionRenameTable then
                 decodeArgs e job = Inr (diffOldSchemaID d) \<and> diffTableID d = TableID job \<and>
                 diffOldTableID d = 0
               else diffTableID d = TableID job \<and> diffOldTableID d = 0 \<and> diffOldSchemaID d = 0))"
proof -
  from assms have g: "failGenSchemaVersion (faults e) = None"
    by (auto simp: updateSchemaVersion_def GenSchemaVersion_def split: option.splits)
  from assms g have s: "failSetSchemaDiff (faults e) = None"
    by (auto simp: updateSchemaVersion_def GenSchemaVersion_def SetSchemaDiff_def Let_def
        split: option.splits sum.splits if_splits)
  from assms g have v: "ver = schemaVersionKey t + 1"
    by (auto simp: updateSchemaVersion_def GenSchemaVersion_def SetSchemaDiff_def Let_def
        split: option.splits sum.splits if_splits)
  consider (trunc) "Type job = ActionTruncateTable"
    | (rename) "Type job = ActionRenameTable"
    | (other) "Type job \<noteq> ActionTruncateTable" "Type job \<noteq> ActionRenameTable"
    by blast
  then show ?thesis
  proof cases
    case trunc
    with assms g s obtain a where "decodeArgs e job = Inr a"
      by (cases "decodeArgs e job") (auto simp: updateSchemaVersion_def GenSchemaVersion_def Let_def)
    with assms g s v trunc show ?thesis
      by (auto simp: updateSchemaVersion_def GenSchemaVersion_def SetSchemaDiff_def Let_def)
  next
    case rename
    with assms g s obtain a where "decodeArgs e job = Inr a"
      by (cases "decodeArgs e job") (auto simp: updateSchemaVersion_def GenSchemaVersion_def Let_def)
    with assms g s v rename show ?thesis
      by (auto simp: updateSchemaVersion_def GenSchemaVersion_def SetSchemaDiff_def Let_def)
  next
    case other
    with assms g s v show ?thesis
      by (auto simp: updateSchemaVersion_def GenSchemaVersion_def SetSchemaDiff_def Let_def)
  qed
qed

lemma updateSchemaVersion_error:
  assumes "updateSchemaVersion e t job = (ver, Some er, t')"
  shows "schemaDiffs t' = schemaDiffs t"
  using assms
  by (auto simp: updateSchemaVersion_def GenSchemaVersion_def SetSchemaDiff_def Let_def
      split: option.splits sum.splits if_splits)

text \<open>
  C6, amended: whenever \<open>updateSchemaVersion\<close> returns no error it has allocated the next
  schema version, written exactly one \<open>SchemaDiff\<close> keyed by that version, which carries the
  version and the job's \<open>Type\<close> and \<open>SchemaID\<close>, and returned the version.  For a
  \<open>TruncateTable\<close> job the diff carries the new table ID (the decoded argument) as \<open>TableID\<close>
  and the job's table ID as \<open>OldTableID\<close>; for a \<open>RenameTable\<close> job it carries the old
  schema ID (the decoded argument) as \<open>OldSchemaID\<close> and the job's table ID as \<open>TableID\<close>,
  with \<open>OldTableID\<close> 0; for any other job the job's table ID as \<open>TableID\<close>.  Whenever it
  returns an error it has written no diff.
\<close>

theorem updateSchemaVersion_diff:
  assumes "updateSchemaVersion e t job = (ver, err, t')"
  shows "(err = None \<longrightarrow>
           ver = schemaVersionKey t + 1 \<and>
           (\<exists>d. t' = t\<lparr>schemaVersionKey := ver, schemaDiffs := (schemaDiffs t)(ver \<mapsto> d)\<rparr> \<and>
                diffVersion d = ver \<and> diffType d = Type job \<and> diffSchemaID d = SchemaID job \<and>
                (if Type job = ActionTruncateTable then
                   decodeArgs e job = Inr (diffTableID d) \<and> diffOldTableID d = TableID job \<and>
                   diffOldSchemaID d = 0
                 else if Type job = ActionRenameTable then
                   decodeArgs e job = Inr (diffOldSchemaID d) \<and> diffTableID d = TableID job \<and>
                   diffOldTableID d = 0
                 else diffTableID d = TableID job \<and> diffOldTableID d = 0 \<and> diffOldSchemaID d = 0)))
       \<and> (err \<noteq> None \<longrightarrow> schemaDiffs t' = schemaDiffs t)"
proof (rule conjI; rule impI)
  assume "err = None"
  with assms have "updateSchemaVersion e t job = (ver, None, t')" by simp
  then show "ver = schemaVersionKey t + 1 \<and>
           (\<exists>d. t' = t\<lparr>schemaVersionKey := ver, schemaDiffs := (schemaDiffs t)(ver \<mapsto> d)\<rparr> \<and>
                diffVersion d = ver \<and> diffType d = Type job \<and> diffSchemaID d = SchemaID job \<and>
                (if Type job = ActionTruncateTable then
                   decodeArgs e job = Inr (diffTableID d) \<and> diffOldTableID d = TableID job \<and>
                   diffOldSchemaID d = 0
                 else if Type job = ActionRenameTable then
                   decodeArgs e job = Inr (diffOldSchemaID d) \<and> diffTableID d = TableID job \<and>
                   diffOldTableID d = 0
                 else diffTableID d = TableID job \<and> diffOldTableID d = 0 \<and> diffOldSchemaID d = 0))"
    by (rule updateSchemaVersion_ok)
next
  assume "err \<noteq> None"
  then obtain er where "err = Some er" by auto
  with assms have "updateSchemaVersion e t job = (ver, Some er, t')" by simp
  then show "schemaDiffs t' = schemaDiffs t" by (rule updateSchemaVersion_error)
qed

theorem updateSchemaVersion_diff_witness:
  "fst (updateSchemaVersion sameTableEnv emptyStore truncateJob) = 1 \<and>
   fst (snd (updateSchemaVersion sameTableEnv emptyStore truncateJob)) = None \<and>
   (\<exists>d. snd (snd (updateSchemaVersion sameTableEnv emptyStore truncateJob)) =
          emptyStore\<lparr>schemaVersionKey := 1, schemaDiffs := [1 \<mapsto> d]\<rparr> \<and>
        diffTableID d = 8 \<and> diffOldTableID d = 7)"
proof -
  let ?R = "updateSchemaVersion sameTableEnv emptyStore truncateJob"
  have ok: "fst (snd ?R) = None"
    by (simp add: updateSchemaVersion_def GenSchemaVersion_def SetSchemaDiff_def sameTableEnv_def
        noFaults_def emptyStore_def truncateJob_def emptyJob_def)
  have a: "decodeArgs sameTableEnv truncateJob = Inr 8" "TableID truncateJob = 7"
    "Type truncateJob = ActionTruncateTable"
    by (simp_all add: sameTableEnv_def truncateJob_def emptyJob_def)
  have v: "schemaVersionKey emptyStore = 0" "schemaDiffs emptyStore = Map.empty"
    by (simp_all add: emptyStore_def)
  have p: "?R = (fst ?R, None, snd (snd ?R))"
    using ok by (metis prod.collapse)
  from updateSchemaVersion_diff [OF p] ok a v show ?thesis by auto
qed

text \<open>It returns no error when the store does not fail and the argument can be decoded.\<close>

lemma updateSchemaVersion_succeeds:
  assumes "failGenSchemaVersion (faults e) = None" and "failSetSchemaDiff (faults e) = None"
    and "decodeArgs e job = Inr a"
  shows "\<exists>t'. updateSchemaVersion e t job = (schemaVersionKey t + 1, None, t')"
  using assms
  by (simp add: updateSchemaVersion_def GenSchemaVersion_def SetSchemaDiff_def Let_def)

subsection \<open>Errors of a step\<close>

text \<open>
  C8: when the step a job is dispatched to returns an error and does not leave the job
  cancelled, \<open>runDDLJob\<close> records the error on the job, increments \<open>ErrorCount\<close> and returns
  the error; it sets the state to \<open>Cancelling\<close> exactly when the incremented count exceeds
  the limit, the job is running and it can be rolled back, and leaves the state alone
  otherwise.  In both cases the iteration writes the job back to the head of its queue
  (the store not failing), where it stays for the next pass.
\<close>

theorem runDDLJob_error_count:
  assumes "\<not> IsFinished job" and "\<not> IsCancelling job"
    and "dispatch e t (if IsRollingback job then job else job\<lparr>State := JobStateRunning\<rparr>)
           = Returned job' t' ver (Some err)"
    and "State job' \<noteq> JobStateCancelled"
  shows "runDDLJob e t job =
           Returned
             (job'\<lparr>Error := Some (toTError err), ErrorCount := ErrorCount job' + 1,
                   State := (if errorCountLimit e <s ErrorCount job' + 1
                                \<and> State job' = JobStateRunning
                                \<and> isJobRollbackable e
                                    (job'\<lparr>Error := Some (toTError err), ErrorCount := ErrorCount job' + 1\<rparr>)
                             then JobStateCancelling else State job')\<rparr>)
             t' ver (Some err)
       \<and> (failUpdateDDLJob (faults e) = None \<longrightarrow> jobList k t' = h # rest \<longrightarrow>
            (\<exists>stored. ID stored = ID job' \<and> ErrorCount stored = ErrorCount job' + 1 \<and>
                fst (afterRun e k t0 (runDDLJob e t job)) = None \<and>
                outRunJobErr (fst (snd (afterRun e k t0 (runDDLJob e t job)))) = Some err \<and>
                jobList k (snd (snd (afterRun e k t0 (runDDLJob e t job)))) = stored # rest))"
proof -
  let ?J = "job'\<lparr>Error := Some (toTError err), ErrorCount := ErrorCount job' + 1,
                   State := (if errorCountLimit e <s ErrorCount job' + 1
                                \<and> State job' = JobStateRunning
                                \<and> isJobRollbackable e
                                    (job'\<lparr>Error := Some (toTError err), ErrorCount := ErrorCount job' + 1\<rparr>)
                             then JobStateCancelling else State job')\<rparr>"
  have r: "runDDLJob e t job = Returned ?J t' ver (Some err)"
  proof (cases "IsRollingback job")
    case True
    with assms show ?thesis by (simp add: runDDLJob_def Let_def)
  next
    case False
    with assms show ?thesis by (simp add: runDDLJob_def Let_def)
  qed
  have nc: "\<not> IsCancelled ?J" using assms(4) by (simp add: IsCancelled_def)
  have q: "failUpdateDDLJob (faults e) = None \<longrightarrow> jobList k t' = h # rest \<longrightarrow>
            (\<exists>stored. ID stored = ID job' \<and> ErrorCount stored = ErrorCount job' + 1 \<and>
                fst (afterRun e k t0 (Returned ?J t' ver (Some err))) = None \<and>
                outRunJobErr (fst (snd (afterRun e k t0 (Returned ?J t' ver (Some err))))) = Some err \<and>
                jobList k (snd (snd (afterRun e k t0 (Returned ?J t' ver (Some err))))) = stored # rest)"
  proof (intro impI)
    assume f: "failUpdateDDLJob (faults e) = None" and l: "jobList k t' = h # rest"
    let ?stored = "if RawArgs ?J \<noteq> None \<and> Args ?J = None then ?J\<lparr>RawArgs := RawArgs h\<rparr> else ?J"
    have u: "updateDDLJob e k t' ?J True = (None, setJobList k (?stored # rest) t')"
      using f l by (simp add: updateDDLJob_def UpdateDDLJob0_def Let_def)
    have a: "afterRun e k t0 (Returned ?J t' ver (Some err)) =
        (None, \<lparr>outJob = Some ?J, outSchemaVer = ver, outRunJobErr = Some err,
                outOnce = False, outEvents = []\<rparr>, setJobList k (?stored # rest) t')"
      using nc u by (simp add: afterRun_def handleUpdateJobError_def Let_def)
    have "ID ?stored = ID job' \<and> ErrorCount ?stored = ErrorCount job' + 1" by simp
    with a show "\<exists>stored. ID stored = ID job' \<and> ErrorCount stored = ErrorCount job' + 1 \<and>
                fst (afterRun e k t0 (Returned ?J t' ver (Some err))) = None \<and>
                outRunJobErr (fst (snd (afterRun e k t0 (Returned ?J t' ver (Some err))))) = Some err \<and>
                jobList k (snd (snd (afterRun e k t0 (Returned ?J t' ver (Some err))))) = stored # rest"
      by (intro exI [of _ ?stored]) simp
  qed
  from r q show ?thesis by simp
qed

theorem runDDLJob_error_count_witness:
  "runDDLJob conflictEnv (twoJobsStore JobStateRunning) (addColumnJob\<lparr>ErrorCount := 2\<rparr>) =
     Returned (addColumnJob\<lparr>Error := Some (Terror ''conflict''), ErrorCount := 3,
                 State := JobStateCancelling\<rparr>)
       (twoJobsStore JobStateRunning) 0 (Some (Plain ''conflict'')) \<and>
   runDDLJob conflictEnv (twoJobsStore JobStateRunning) addColumnJob =
     Returned (addColumnJob\<lparr>Error := Some (Terror ''conflict''), ErrorCount := 1\<rparr>)
       (twoJobsStore JobStateRunning) 0 (Some (Plain ''conflict''))"
proof -
  let ?t = "twoJobsStore JobStateRunning"
  have f: "\<And>n. \<not> IsFinished (addColumnJob\<lparr>ErrorCount := n\<rparr>)"
    and c: "\<And>n. \<not> IsCancelling (addColumnJob\<lparr>ErrorCount := n\<rparr>)"
    by (simp_all add: IsFinished_def IsCancelling_def addColumnJob_def)
  have d: "\<And>n. dispatch conflictEnv ?t
       (if IsRollingback (addColumnJob\<lparr>ErrorCount := n\<rparr>) then addColumnJob\<lparr>ErrorCount := n\<rparr>
        else addColumnJob\<lparr>ErrorCount := n, State := JobStateRunning\<rparr>) =
      Returned (addColumnJob\<lparr>ErrorCount := n\<rparr>) ?t 0 (Some (Plain ''conflict''))"
    by (simp add: dispatch_def dispatchable_def conflictEnv_def sameTableEnv_def addColumnJob_def
        emptyJob_def IsRollingback_def)
  have s: "\<And>n. State (addColumnJob\<lparr>ErrorCount := n\<rparr>) \<noteq> JobStateCancelled"
    by (simp add: addColumnJob_def)
  have z: "addColumnJob\<lparr>ErrorCount := 0\<rparr> = addColumnJob"
    by (simp add: addColumnJob_def emptyJob_def)
  show ?thesis
    using runDDLJob_error_count [OF f c d s, of 2, THEN conjunct1] runDDLJob_error_count [OF f c d s, of 0, THEN conjunct1] z
    by (simp add: conflictEnv_def sameTableEnv_def addColumnJob_def emptyJob_def word_sless_alt)
qed

subsection \<open>Finishing a job in one transaction\<close>

lemma sameQueues_jobList:
  "defaultJobList t' = defaultJobList t \<Longrightarrow> addIndexJobList t' = addIndexJobList t \<Longrightarrow>
   jobList k t' = jobList k t"
  by (cases k) (simp_all add: jobList_def)

lemma sameQueues_ID:
  "ID (j::Job) = ID (job::Job) \<Longrightarrow> sameQueues j t r \<Longrightarrow> sameQueues job t r"
  by (cases r) (simp_all add: sameQueues_def)

lemma finishDDLJob_None:
  assumes "finishDDLJob e k t job = (None, job', t')"
  shows "jobList k t' = tl (jobList k t) \<and> historyJobs t' = (historyJobs t)(ID job \<mapsto> job') \<and>
         ID job' = ID job \<and> State job' = State job"
proof -
  from assms have p: "finishPrepare e job = None"
    by (auto simp: finishDDLJob_def split: option.splits)
  from assms p have d: "failDeQueueDDLJob (faults e) = None"
    by (auto simp: finishDDLJob_def DeQueueDDLJob_def split: option.splits)
  from assms p d have a: "failAddHistoryDDLJob (faults e) = None"
    by (auto simp: finishDDLJob_def DeQueueDDLJob_def AddHistoryDDLJob_def Let_def
        split: option.splits list.splits)
  from assms p d a show ?thesis
    by (cases "jobList k t")
      (auto simp: finishDDLJob_def DeQueueDDLJob_def AddHistoryDDLJob_def Let_def)
qed

lemma runDDLJob_sameQueues:
  assumes "keepsQueues e"
  shows "sameQueues job t (runDDLJob e t job)"
proof -
  have s: "\<And>j. sameQueues j t (step e j t)" and c: "sameQueues job t (convertJob2RollbackJob e job t)"
    using assms by (simp_all add: keepsQueues_def)
  have d: "\<And>j::Job. ID j = ID job \<Longrightarrow> sameQueues job t (dispatch e t j)"
  proof -
    fix j :: Job assume i: "ID j = ID job"
    show "sameQueues job t (dispatch e t j)"
    proof (cases "dispatchable (Type j)")
      case True
      then show ?thesis using sameQueues_ID [OF i s [of j]] by (simp add: dispatch_def)
    next
      case False
      then show ?thesis using i by (simp add: dispatch_def sameQueues_def)
    qed
  qed
  have r: "\<And>j::Job. ID j = ID job \<Longrightarrow>
      sameQueues job t
        (case dispatch e t j of
              Panicked job2 t1 \<Rightarrow> Panicked job2 t1
            | Returned job2 t1 ver None \<Rightarrow> Returned job2 t1 ver None
            | Returned job2 t1 ver (Some err) \<Rightarrow>
                (let job3 = job2\<lparr>Error := Some (toTError err), ErrorCount := ErrorCount job2 + 1\<rparr>
                 in if State job3 = JobStateCancelled then Returned job3 t1 ver None
                    else if errorCountLimit e <s ErrorCount job3 \<and> State job3 = JobStateRunning
                            \<and> isJobRollbackable e job3
                    then Returned (job3\<lparr>State := JobStateCancelling\<rparr>) t1 ver (Some err)
                    else Returned job3 t1 ver (Some err)))"
  proof -
    fix j :: Job assume "ID j = ID job"
    from d [OF this] show "sameQueues job t
        (case dispatch e t j of
              Panicked job2 t1 \<Rightarrow> Panicked job2 t1
            | Returned job2 t1 ver None \<Rightarrow> Returned job2 t1 ver None
            | Returned job2 t1 ver (Some err) \<Rightarrow>
                (let job3 = job2\<lparr>Error := Some (toTError err), ErrorCount := ErrorCount job2 + 1\<rparr>
                 in if State job3 = JobStateCancelled then Returned job3 t1 ver None
                    else if errorCountLimit e <s ErrorCount job3 \<and> State job3 = JobStateRunning
                            \<and> isJobRollbackable e job3
                    then Returned (job3\<lparr>State := JobStateCancelling\<rparr>) t1 ver (Some err)
                    else Returned job3 t1 ver (Some err)))"
      by (cases "dispatch e t j") (auto simp: sameQueues_def Let_def split: option.splits)
  qed
  show ?thesis
    using c r [of job] r [of "job\<lparr>State := JobStateRunning\<rparr>"]
    by (simp add: runDDLJob_def Let_def sameQueues_def)
qed

lemma finish_moves:
  assumes "finishDDLJob e k t job = (None, job', t')" and "jobList k t = h # rest"
    and "ID job = ID h"
    and "State job = JobStateSynced \<or> State job = JobStateRollbackDone \<or> State job = JobStateCancelled"
  shows "jobMoved k h rest t t'"
  using finishDDLJob_None [OF assms(1)] assms(2-4) by (auto simp: jobMoved_def)

lemma afterRun_None:
  assumes sq: "sameQueues job0 t0 r" and ar: "afterRun e k t0 r = (None, out, t')"
    and hd: "jobList k t0 = h # rest" and id: "ID job0 = ID h"
  shows "jobKept k h rest t0 t' \<or> jobMoved k h rest t0 t'"
proof -
  define job where "job = (case r of Returned j t1 ver err \<Rightarrow> j
                           | Panicked j t1 \<Rightarrow> j\<lparr>State := JobStateCancelling\<rparr>)"
  define t1 where "t1 = (case r of Returned j t1 ver err \<Rightarrow> t1 | Panicked j t1 \<Rightarrow> t1)"
  define meetErr where "meetErr = (case r of Returned j t1 ver err \<Rightarrow> err \<noteq> None | Panicked j t1 \<Rightarrow> False)"
  have jid: "ID job = ID h" and l1: "jobList k t1 = h # rest" and h1: "historyJobs t1 = historyJobs t0"
    using sq id hd sameQueues_jobList [of t1 t0 k]
    by (auto simp: job_def t1_def sameQueues_def split: stepResult.splits)
  show ?thesis
  proof (cases "IsCancelled job")
    case True
    with ar obtain job' where "finishDDLJob e k t0 job = (None, job', t')"
      by (cases r) (auto simp: afterRun_def job_def Let_def split: prod.splits)
    from finish_moves [OF this hd jid] True show ?thesis by (simp add: IsCancelled_def)
  next
    case False
    obtain uerr t2 where u: "updateDDLJob e k t1 job meetErr = (uerr, t2)"
      by (cases "updateDDLJob e k t1 job meetErr") auto
    from ar False u obtain job' where hu: "handleUpdateJobError e k t2 job uerr = (None, job', t')"
      by (cases r) (auto simp: afterRun_def job_def t1_def meetErr_def Let_def split: prod.splits)
    show ?thesis
    proof (cases uerr)
      case None
      with hu have "t' = t2" by (simp add: handleUpdateJobError_def)
      with u None l1 h1 jid have "jobKept k h rest t0 t'"
        by (auto simp: updateDDLJob_def UpdateDDLJob0_def jobKept_def Let_def split: option.splits)
      then show ?thesis ..
    next
      case (Some er)
      with u l1 have t2: "t2 = t1"
        by (auto simp: updateDDLJob_def UpdateDDLJob0_def Let_def split: option.splits)
      from hu Some have f: "finishDDLJob e k t2
              ((BinlogInfo_Clean job)\<lparr>Error := Some (toTError er), SchemaState := StateNone,
                 State := JobStateCancelled\<rparr>) = (None, job', t')"
        by (auto simp: handleUpdateJobError_def split: if_splits)
      have "jobMoved k h rest t1 t'"
        using finish_moves [OF f [unfolded t2] l1] jid by (simp add: BinlogInfo_Clean_def)
      then have "jobMoved k h rest t0 t'" using h1 by (simp add: jobMoved_def)
      then show ?thesis ..
    qed
  qed
qed

lemma iteration_kept_or_moved:
  assumes kq: "keepsQueues e"
    and run: "RunInNewTxn (faults e) t (handleDDLJobQueueTxn e once) = (err, out, t')"
    and hd: "jobList (newMetaWithQueueTp (typeStr (workerTp e))) t = h # rest"
  shows "jobKept (newMetaWithQueueTp (typeStr (workerTp e))) h rest t t' \<or>
         jobMoved (newMetaWithQueueTp (typeStr (workerTp e))) h rest t t'"
proof -
  let ?k = "newMetaWithQueueTp (typeStr (workerTp e))"
  have kept: "jobKept ?k h rest t t" using hd by (auto simp: jobKept_def)
  show ?thesis
  proof (cases "err = None")
    case False
    with run have "t' = t"
      by (auto simp: RunInNewTxn_def split: prod.splits option.splits)
    with kept show ?thesis by simp
  next
    case True
    with run have body: "handleDDLJobQueueTxn e once t = (None, out, t')"
      by (auto simp: RunInNewTxn_def split: prod.splits option.splits)
    show ?thesis
    proof (cases "isOwner e \<and> failGetDDLJobByIdx (faults e) = None")
      case False
      with body have "t' = t"
        by (auto simp: handleDDLJobQueueTxn_def GetDDLJobByIdx0_def Let_def
            split: option.splits if_splits)
      with kept show ?thesis by simp
    next
      case own: True
      then have g: "GetDDLJobByIdx0 (faults e) ?k t = (Some h, None)"
        using hd by (simp add: GetDDLJobByIdx0_def)
      obtain isDone err1 job1 where dep: "isDependencyJobDone e t h = (isDone, err1, job1)"
        by (cases "isDependencyJobDone e t h") auto
      then have id1: "ID job1 = ID h"
        by (auto simp: isDependencyJobDone_def split: if_splits option.splits prod.splits)
      show ?thesis
      proof (cases "isDone \<and> err1 = None \<and> \<not> once")
        case False
        with body own g dep have "t' = t"
          by (cases isDone; cases err1) (auto simp: handleDDLJobQueueTxn_def Let_def)
        with kept show ?thesis by simp
      next
        case go: True
        show ?thesis
        proof (cases "IsDone job1 \<or> IsRollbackDone job1")
          case True
          let ?job2 = "if \<not> IsRollbackDone job1 then job1\<lparr>State := JobStateSynced\<rparr> else job1"
          from body own g dep go True obtain job3
            where f: "finishDDLJob e ?k t ?job2 = (None, job3, t')"
            by (auto simp: handleDDLJobQueueTxn_def Let_def split: prod.splits)
          have "jobMoved ?k h rest t t'"
            using finish_moves [OF f hd] id1 by (auto simp: IsRollbackDone_def)
          then show ?thesis ..
        next
          case False
          with body own g dep go have a: "afterRun e ?k t (runDDLJob e t job1) = (None, out, t')"
            by (auto simp: handleDDLJobQueueTxn_def Let_def)
          from afterRun_None [OF runDDLJob_sameQueues [OF kq] a hd id1] show ?thesis .
        qed
      qed
    qed
  qed
qed

text \<open>
  C5: the step functions keeping the queues, an iteration of the worker commits one of two
  things for the head of its queue.  Either the job is still the head and the history is
  untouched, or the job is gone from the queue and the history holds it in a final state
  (\<open>Synced\<close>, \<open>Cancelled\<close>, or \<open>RollbackDone\<close> for a rollback that is finalized): the dequeue
  and the append to the history are writes of the same transaction, so no committed store
  has the job in neither place.
\<close>

theorem finish_dequeue_history_atomic:
  assumes kq: "keepsQueues e"
    and run: "RunInNewTxn (faults e) t (handleDDLJobQueueTxn e once) = (err, out, t')"
    and hd: "jobList (newMetaWithQueueTp (typeStr (workerTp e))) t = h # rest"
  shows "(historyJobs t' = historyJobs t \<and>
          (\<exists>h'. ID h' = ID h \<and> jobList (newMetaWithQueueTp (typeStr (workerTp e))) t' = h' # rest))
       \<or> (jobList (newMetaWithQueueTp (typeStr (workerTp e))) t' = rest \<and>
          (\<exists>j. ID j = ID h \<and>
               (State j = JobStateSynced \<or> State j = JobStateRollbackDone \<or> State j = JobStateCancelled) \<and>
               historyJobs t' = (historyJobs t)(ID h \<mapsto> j)))"
  using iteration_kept_or_moved [OF kq run hd] by (simp add: jobKept_def jobMoved_def)

lemma iteration_empty_queue:
  assumes "RunInNewTxn (faults e) t (handleDDLJobQueueTxn e once) = (err, out, t')"
    and "jobList (newMetaWithQueueTp (typeStr (workerTp e))) t = []"
  shows "t' = t"
  using assms
  by (auto simp: RunInNewTxn_def handleDDLJobQueueTxn_def GetDDLJobByIdx0_def Let_def
      split: prod.splits option.splits if_splits)

lemma iteration_tracked:
  assumes kq: "keepsQueues e"
    and iter: "handleDDLJobQueueIter e once cnt t = (r, err, out, t')"
  shows "tracked (newMetaWithQueueTp (typeStr (workerTp e))) t
           \<subseteq> tracked (newMetaWithQueueTp (typeStr (workerTp e))) t'"
proof (cases "quit e")
  case True
  with iter show ?thesis by (simp add: handleDDLJobQueueIter_def)
next
  case False
  let ?k = "newMetaWithQueueTp (typeStr (workerTp e))"
  from False iter have run: "RunInNewTxn (faults e) t (handleDDLJobQueueTxn e once) = (err, out, t')"
    by (auto simp: handleDDLJobQueueIter_def split: prod.splits)
  show ?thesis
  proof (cases "jobList ?k t")
    case Nil
    from iteration_empty_queue [OF run Nil] show ?thesis by simp
  next
    case (Cons h rest)
    from iteration_kept_or_moved [OF kq run Cons] show ?thesis
      using Cons by (auto simp: jobKept_def jobMoved_def tracked_def)
  qed
qed

text \<open>
  Over the whole loop: a job that is in the queue of the worker or in the history is, in
  every store the loop commits, in the queue or in the history.
\<close>

lemma handleDDLJobQueue_tracked:
  assumes "\<forall>e\<in>set es. keepsQueues e \<and> newMetaWithQueueTp (typeStr (workerTp e)) = k"
    and "handleDDLJobQueue es once cnt t = (r, ts, evs)"
  shows "\<forall>t'\<in>set ts. tracked k t \<subseteq> tracked k t'"
  using assms
proof (induction es arbitrary: once cnt t r ts evs)
  case Nil
  then show ?case by simp
next
  case (Cons e es)
  obtain continue cnt' evs1 err out t1
    where it: "handleDDLJobQueueIter e once cnt t = ((continue, cnt', evs1), err, out, t1)"
    by (cases "handleDDLJobQueueIter e once cnt t") auto
  from Cons.prems(1) have kq: "keepsQueues e" and k: "newMetaWithQueueTp (typeStr (workerTp e)) = k"
    and rest: "\<forall>e\<in>set es. keepsQueues e \<and> newMetaWithQueueTp (typeStr (workerTp e)) = k"
    by simp_all
  from iteration_tracked [OF kq it] k have one: "tracked k t \<subseteq> tracked k t1" by simp
  show ?case
  proof (cases continue)
    case False
    with Cons.prems(2) it have "ts = [t1]" by auto
    with one show ?thesis by simp
  next
    case True
    obtain r2 ts2 evs2 where l: "handleDDLJobQueue es (outOnce out) cnt' t1 = (r2, ts2, evs2)"
      by (cases "handleDDLJobQueue es (outOnce out) cnt' t1") auto
    with Cons.prems(2) it True have ts: "ts = t1 # ts2" by auto
    from Cons.IH [OF rest l] have "\<forall>t'\<in>set ts2. tracked k t1 \<subseteq> tracked k t'" .
    with one ts show ?thesis by auto
  qed
qed

lemma keepsQueues_sameTableEnv: "keepsQueues sameTableEnv"
  by (simp add: keepsQueues_def sameQueues_def sameTableEnv_def)

lemma keepsQueues_historyFails: "keepsQueues historyFails"
  by (simp add: keepsQueues_def sameQueues_def historyFails_def sameTableEnv_def)

lemma handle_done_example:
  "RunInNewTxn (faults sameTableEnv) (twoJobsStore JobStateDone) (handleDDLJobQueueTxn sameTableEnv False) =
     (None, withJob False (addColumnJob\<lparr>State := JobStateSynced, FinishedTS := 400\<rparr>),
      emptyStore\<lparr>globalID := 6, defaultJobList := [createTableJob],
        historyJobs := [4 \<mapsto> addColumnJob\<lparr>State := JobStateSynced, FinishedTS := 400\<rparr>]\<rparr>)"
  by (simp add: RunInNewTxn_def handleDDLJobQueueTxn_def GetDDLJobByIdx0_def
      isDependencyJobDone_def finishDDLJob_def finishPrepare_def DeQueueDDLJob_def
      AddHistoryDDLJob_def newMetaWithQueueTp_def typeStr_def AddIndexStr_def jobList_def
      setJobList_def noneDependencyJob_def IsDone_def IsRollbackDone_def IsCancelled_def
      withJob_def noJob_def sameTableEnv_def noFaults_def twoJobsStore_def emptyStore_def
      addColumnJob_def createTableJob_def emptyJob_def Let_def)

lemma handle_done_historyFails:
  "RunInNewTxn (faults historyFails) (twoJobsStore JobStateDone) (handleDDLJobQueueTxn historyFails False) =
     (Some (Plain ''write failed''),
      withJob False (addColumnJob\<lparr>State := JobStateSynced, FinishedTS := 400\<rparr>),
      twoJobsStore JobStateDone)"
  by (simp add: RunInNewTxn_def handleDDLJobQueueTxn_def GetDDLJobByIdx0_def
      isDependencyJobDone_def finishDDLJob_def finishPrepare_def DeQueueDDLJob_def
      AddHistoryDDLJob_def newMetaWithQueueTp_def typeStr_def AddIndexStr_def jobList_def
      setJobList_def noneDependencyJob_def IsDone_def IsRollbackDone_def IsCancelled_def
      withJob_def noJob_def historyFails_def sameTableEnv_def noFaults_def twoJobsStore_def emptyStore_def
      addColumnJob_def createTableJob_def emptyJob_def Let_def)

lemma twoJobsStore_head:
  "jobList (newMetaWithQueueTp (typeStr (workerTp sameTableEnv))) (twoJobsStore st) =
     addColumnJob\<lparr>State := st\<rparr> # [createTableJob]"
  "jobList (newMetaWithQueueTp (typeStr (workerTp historyFails))) (twoJobsStore st) =
     addColumnJob\<lparr>State := st\<rparr> # [createTableJob]"
  by (simp_all add: newMetaWithQueueTp_def typeStr_def AddIndexStr_def jobList_def
      historyFails_def sameTableEnv_def twoJobsStore_def emptyStore_def)

theorem finish_dequeue_history_atomic_witness:
  "keepsQueues sameTableEnv \<and> keepsQueues historyFails \<and>
   defaultJobList (snd (snd (RunInNewTxn (faults sameTableEnv) (twoJobsStore JobStateDone)
       (handleDDLJobQueueTxn sameTableEnv False)))) = [createTableJob] \<and>
   historyJobs (snd (snd (RunInNewTxn (faults sameTableEnv) (twoJobsStore JobStateDone)
       (handleDDLJobQueueTxn sameTableEnv False)))) 4 =
     Some (addColumnJob\<lparr>State := JobStateSynced, FinishedTS := 400\<rparr>) \<and>
   snd (snd (RunInNewTxn (faults historyFails) (twoJobsStore JobStateDone)
       (handleDDLJobQueueTxn historyFails False))) = twoJobsStore JobStateDone"
  using finish_dequeue_history_atomic [OF keepsQueues_sameTableEnv handle_done_example twoJobsStore_head(1)]
    finish_dequeue_history_atomic [OF keepsQueues_historyFails handle_done_historyFails twoJobsStore_head(2)]
    keepsQueues_sameTableEnv keepsQueues_historyFails
  by (simp add: handle_done_example handle_done_historyFails)

subsection \<open>Waiting after a change of the schema version\<close>

text \<open>
  An iteration on a running job whose step bumps the schema version to 1: the job is
  written back, the transaction commits, and the worker calls \<open>waitSchemaChanged\<close> with
  twice the lease.
\<close>

lemma iter_bump:
  "handleDDLJobQueueIter (bumpEnv l) False 0 (twoJobsStore JobStateRunning) =
     ((True, 0, waitSchemaChanged (bumpEnv l) None (2 * l) 1 addColumnJob), None, bumpedOut,
      (twoJobsStore JobStateRunning)\<lparr>schemaVersionKey := 1\<rparr>)"
  by (simp add: handleDDLJobQueueIter_def RunInNewTxn_def handleDDLJobQueueTxn_def
      GetDDLJobByIdx0_def isDependencyJobDone_def runDDLJob_def dispatch_def dispatchable_def
      afterRun_def updateDDLJob_def UpdateDDLJob0_def handleUpdateJobError_def afterTxn_def
      waitDependencyJobFinished_def newMetaWithQueueTp_def typeStr_def AddIndexStr_def
      jobList_def setJobList_def noneDependencyJob_def IsDone_def IsRollbackDone_def
      IsCancelled_def IsFinished_def IsCancelling_def IsRollingback_def IsSynced_def
      bumpedOut_def bumpEnv_def sameTableEnv_def noFaults_def twoJobsStore_def emptyStore_def
      addColumnJob_def emptyJob_def Let_def)

text \<open>
  C4, as the claim states it, fails: the timeout has no minimum.  \<open>waitSchemaChanged\<close> is
  given \<open>2 * d.lease\<close> and returns at once when that is zero, so with a zero lease there is
  no wait at all; with a lease of 100 milliseconds the syncer is called with a timeout of
  200 milliseconds, less than one second.
\<close>

theorem waitSchemaChanged_no_minimum_counterexample:
  "fst (handleDDLJobQueueIter (bumpEnv 0) False 0 (twoJobsStore JobStateRunning)) = (True, 0, []) \<and>
   outSchemaVer (fst (snd (snd (handleDDLJobQueueIter (bumpEnv 0) False 0 (twoJobsStore JobStateRunning))))) = 1 \<and>
   fst (handleDDLJobQueueIter (bumpEnv (100 * Millisecond)) False 0 (twoJobsStore JobStateRunning)) =
     (True, 0, [OwnerUpdateGlobalVersion 200000000 1, OwnerCheckAllVersions 200000000 1]) \<and>
   (200000000 :: duration) <s Second"
proof -
  have w0: "waitSchemaChanged (bumpEnv 0) None 0 1 addColumnJob = []"
    by (simp add: waitSchemaChanged_def)
  have w1: "waitSchemaChanged (bumpEnv (100 * Millisecond)) None (200 * Millisecond) 1 addColumnJob =
      [OwnerUpdateGlobalVersion 200000000 1, OwnerCheckAllVersions 200000000 1]"
    by (simp add: waitSchemaChanged_def bumpEnv_def sameTableEnv_def addColumnJob_def emptyJob_def
        IsRunning_def Millisecond_def Let_def)
  have lt: "(200000000 :: duration) <s Second"
    by (simp add: Second_def word_sless_alt)
  show ?thesis
    unfolding iter_bump by (simp add: w0 w1 lt bumpedOut_def)
qed

text \<open>
  C4, amended: in every iteration whose transaction returned a job without error and whose
  step returned a non-zero schema version, the worker calls \<open>waitSchemaChanged\<close> with a wait
  time of twice the lease (in 64-bit arithmetic).  The call does nothing when that wait
  time is zero or the job is not running, rolling back, done or rolled back; otherwise it
  starts with \<open>OwnerUpdateGlobalVersion\<close>, and every call of the syncer in it has a timeout
  of exactly twice the lease.
\<close>

theorem waitSchemaChanged_timeout:
  assumes iter: "handleDDLJobQueueIter e once cnt t = ((continue, cnt', evs), None, out, t')"
    and job: "outJob out = Some job" and ver: "outSchemaVer out \<noteq> 0"
  shows "evs =
           outEvents out @
           (if outRunJobErr out \<noteq> None then [Sleep WaitTimeWhenErrorOccured] else []) @
           fst (waitDependencyJobFinished job cnt) @
           waitSchemaChanged e None (2 * ddlLease e) (outSchemaVer out) job @
           (if IsSynced job \<or> IsCancelled job then [NotifyJobDone] else [])
       \<and> (waitSchemaChanged e None (2 * ddlLease e) (outSchemaVer out) job = [] \<longleftrightarrow>
            2 * ddlLease e = 0 \<or>
            \<not> (IsRunning job \<or> IsRollingback job \<or> IsDone job \<or> IsRollbackDone job))
       \<and> (waitSchemaChanged e None (2 * ddlLease e) (outSchemaVer out) job \<noteq> [] \<longrightarrow>
            hd (waitSchemaChanged e None (2 * ddlLease e) (outSchemaVer out) job) =
              OwnerUpdateGlobalVersion (2 * ddlLease e) (outSchemaVer out))
       \<and> (\<forall>ev\<in>set (waitSchemaChanged e None (2 * ddlLease e) (outSchemaVer out) job).
            ev = NotifyCleanExpiredPaths \<or> eventTimeout ev = Some (2 * ddlLease e))"
proof -
  let ?W = "waitSchemaChanged e None (2 * ddlLease e) (outSchemaVer out) job"
  have nq: "\<not> quit e"
  proof
    assume "quit e"
    with iter have "out = noJob once" by (simp add: handleDDLJobQueueIter_def)
    with job show False by (simp add: noJob_def)
  qed
  with iter have "afterTxn e None out cnt = (continue, cnt', evs)"
    by (auto simp: handleDDLJobQueueIter_def split: prod.splits)
  with job have a: "evs =
           outEvents out @
           (if outRunJobErr out \<noteq> None then [Sleep WaitTimeWhenErrorOccured] else []) @
           fst (waitDependencyJobFinished job cnt) @ ?W @
           (if IsSynced job \<or> IsCancelled job then [NotifyJobDone] else [])"
    by (auto simp: afterTxn_def Let_def split: prod.splits)
  have b: "?W = [] \<longleftrightarrow> 2 * ddlLease e = 0 \<or>
            \<not> (IsRunning job \<or> IsRollingback job \<or> IsDone job \<or> IsRollbackDone job)"
    using ver by (auto simp: waitSchemaChanged_def Let_def)
  have c: "?W \<noteq> [] \<longrightarrow> hd ?W = OwnerUpdateGlobalVersion (2 * ddlLease e) (outSchemaVer out)"
    by (auto simp: waitSchemaChanged_def Let_def)
  have d: "\<forall>ev\<in>set ?W. ev = NotifyCleanExpiredPaths \<or> eventTimeout ev = Some (2 * ddlLease e)"
    by (auto simp: waitSchemaChanged_def eventTimeout_def Let_def split: option.splits if_splits)
  from a b c d show ?thesis by blast
qed

theorem waitSchemaChanged_timeout_witness:
  "fst (handleDDLJobQueueIter (bumpEnv Second) False 0 (twoJobsStore JobStateRunning)) =
     (True, 0, [OwnerUpdateGlobalVersion 2000000000 1, OwnerCheckAllVersions 2000000000 1]) \<and>
   fst (handleDDLJobQueueIter (bumpEnv 0) False 0 (twoJobsStore JobStateRunning)) = (True, 0, [])"
proof -
  have j: "outJob bumpedOut = Some addColumnJob" and v: "outSchemaVer bumpedOut \<noteq> 0"
    by (simp_all add: bumpedOut_def)
  have l: "\<And>l. ddlLease (bumpEnv l) = l"
    by (simp add: bumpEnv_def)
  have r: "IsRunning addColumnJob"
    by (simp add: addColumnJob_def emptyJob_def IsRunning_def)
  have o: "ownerUpdateGlobalVersion (bumpEnv Second) 1 = None"
    "ownerCheckAllVersions (bumpEnv Second) 1 = None"
    by (simp_all add: bumpEnv_def sameTableEnv_def)
  from waitSchemaChanged_timeout [OF iter_bump j v, of Second] r l
  have w1: "waitSchemaChanged (bumpEnv Second) None (2 * Second) 1 addColumnJob \<noteq> []"
    by (simp add: bumpedOut_def Second_def)
  have w2: "waitSchemaChanged (bumpEnv Second) None (2 * Second) 1 addColumnJob =
      [OwnerUpdateGlobalVersion 2000000000 1, OwnerCheckAllVersions 2000000000 1]"
    using r o by (simp add: waitSchemaChanged_def Second_def Let_def)
  from waitSchemaChanged_timeout [OF iter_bump j v, of 0] l
  have w3: "waitSchemaChanged (bumpEnv 0) None (2 * 0) 1 addColumnJob = []"
    by (simp add: bumpedOut_def)
  from w2 w3 show ?thesis by (simp add: iter_bump)
qed

end
